theory Spec2Isabelle
  imports Complex_Main
begin

section \<open>Errors, storages and the store\<close>

text \<open>
  The program is \<^verbatim>\<open>minitorch/tensor_ops.py\<close>. Every exception the code can raise is a
  value: \<open>IndexError\<close> is Python's own error for a subscript out of range,
  \<open>NotImplementedError\<close> is raised by \<^verbatim>\<open>matrix_multiply\<close>; \<open>OutOfRange\<close> and
  \<open>ShapeMismatch\<close> are the two conditions the specification names for the index helpers
  and for shape broadcasting. A call that raises returns the error alone: what it had
  written before is not part of the result.

  Sizes, strides, index components and storage positions are natural numbers. The source
  keeps index components in \<^verbatim>\<open>int32\<close> buffers, which hold them exactly for shapes with
  sizes below \<open>2^31\<close>; strides are not negative, as for every tensor the library builds.
  The elements of a storage are of an arbitrary type \<open>'a\<close>: the procedures only move them
  and apply the given scalar function.
\<close>

datatype error = IndexError | NotImplementedError | OutOfRange | ShapeMismatch

text \<open>
  Storages are mutable arrays that tensors share by reference, so the model keeps an
  explicit store: \<open>cells\<close> maps a reference to the current contents of that storage and
  \<open>next_ref\<close> is the first reference not yet allocated. \<open>writes\<close> is the trace of the
  subscript assignments \<^verbatim>\<open>storage[p] = v\<close> executed so far, oldest first; nothing reads
  it, it only records what was written where.
\<close>

type_synonym ref = nat

record 'a store =
  cells :: "ref \<Rightarrow> 'a list"
  next_ref :: ref
  writes :: "(ref \<times> nat \<times> 'a) list"

text \<open>\<^verbatim>\<open>storage[p]\<close> as an expression: positions are never negative here.\<close>

definition storage_get :: "'a store \<Rightarrow> ref \<Rightarrow> nat \<Rightarrow> error + 'a" where
  "storage_get s r p =
     (if p < length (cells s r) then Inr (cells s r ! p) else Inl IndexError)"

text \<open>\<^verbatim>\<open>storage[p] = v\<close>.\<close>

definition storage_set :: "'a store \<Rightarrow> ref \<Rightarrow> nat \<Rightarrow> 'a \<Rightarrow> error + 'a store" where
  "storage_set s r p v =
     (if p < length (cells s r)
      then Inr (s\<lparr>cells := (cells s)(r := (cells s r)[p := v]),
                  writes := writes s @ [(r, p, v)]\<rparr>)
      else Inl IndexError)"

text \<open>
  \<^verbatim>\<open>xs[k]\<close> for a Python integer \<open>k\<close> on a sequence of length \<open>n\<close>: a negative
  subscript counts from the end, anything else out of range raises.
\<close>

definition py_index :: "nat \<Rightarrow> int \<Rightarrow> error + nat" where
  "py_index n k =
     (if 0 \<le> k \<and> k < int n then Inr (nat k)
      else if - int n \<le> k \<and> k < 0 then Inr (nat (k + int n))
      else Inl IndexError)"

text \<open>
  \<^verbatim>\<open>for i in range(...): body\<close> over a state; an exception in the body leaves the loop.
\<close>

fun for_each :: "(nat \<Rightarrow> 's \<Rightarrow> error + 's) \<Rightarrow> nat list \<Rightarrow> 's \<Rightarrow> error + 's" where
  "for_each body [] s = Inr s"
| "for_each body (i # rest) s =
     (case body i s of Inl e \<Rightarrow> Inl e | Inr s' \<Rightarrow> for_each body rest s')"

section \<open>Index arithmetic and broadcasting (\<^verbatim>\<open>tensor_data.py\<close>)\<close>

text \<open>
  Modelled from the spec: \<^verbatim>\<open>tensor_data.py\<close> (\<^verbatim>\<open>to_index\<close>, \<^verbatim>\<open>index_to_position\<close>,
  \<^verbatim>\<open>broadcast_index\<close>, \<^verbatim>\<open>shape_broadcast\<close>, the row-major strides of a fresh tensor) and
  \<^verbatim>\<open>operators.prod\<close> are imported by \<^verbatim>\<open>tensor_ops.py\<close> but are not among the sources.
  \<open>prod_list\<close> stands for \<^verbatim>\<open>operators.prod\<close>. \<open>row_major_index\<close> is the index that the
  row-major (last dimension fastest) enumeration of a shape reaches at an ordinal.
\<close>

fun row_major_index :: "nat \<Rightarrow> nat list \<Rightarrow> nat list" where
  "row_major_index ordinal [] = []"
| "row_major_index ordinal (d # shp) =
     (ordinal div prod_list shp) # row_major_index (ordinal mod prod_list shp) shp"

text \<open>
  Modelled from the spec: \<^verbatim>\<open>to_index\<close> converts an ordinal in \<open>[0, product(shape))\<close> and
  fails with an out-of-range condition beyond the element count. The source passes a
  buffer of \<open>len(shape)\<close> entries that the call overwrites entirely; the model returns the
  new contents of that buffer.
\<close>

definition to_index :: "nat \<Rightarrow> nat list \<Rightarrow> error + nat list" where
  "to_index ordinal shp =
     (if ordinal < prod_list shp then Inr (row_major_index ordinal shp) else Inl OutOfRange)"

text \<open>Modelled from the spec: \<^verbatim>\<open>index_to_position\<close> is the dot product of index and strides.\<close>

definition index_to_position :: "nat list \<Rightarrow> nat list \<Rightarrow> nat" where
  "index_to_position index strds = sum_list (map2 (*) index strds)"

text \<open>
  Modelled from the spec: \<^verbatim>\<open>broadcast_index\<close> aligns the smaller shape with the trailing
  dimensions of the bigger one; a component is 0 where the smaller shape has size 1 and
  the aligned component of the big index elsewhere. The spec defines it only when the
  smaller shape has no more dimensions than the bigger one; the model fails otherwise.
\<close>

definition broadcast_index :: "nat list \<Rightarrow> nat list \<Rightarrow> nat list \<Rightarrow> error + nat list" where
  "broadcast_index big_index big_shape shp =
     (if length shp \<le> length big_shape \<and> length big_index = length big_shape
      then Inr (map2 (\<lambda>d b. if d = 1 then 0 else b) shp
                  (drop (length big_shape - length shp) big_index))
      else Inl OutOfRange)"

text \<open>
  Modelled from the spec: \<^verbatim>\<open>shape_broadcast\<close> pads the shorter shape with leading 1s;
  a pair of sizes is compatible when they are equal or one of them is 1, the result takes
  the maximum, and an incompatible pair is a shape mismatch.
\<close>

definition pad_shape :: "nat \<Rightarrow> nat list \<Rightarrow> nat list" where
  "pad_shape n shp = replicate (n - length shp) 1 @ shp"

fun broadcast_dims :: "nat list \<Rightarrow> nat list \<Rightarrow> error + nat list" where
  "broadcast_dims [] [] = Inr []"
| "broadcast_dims (x # xs) (y # ys) =
     (if x = y \<or> x = 1 \<or> y = 1
      then (case broadcast_dims xs ys of Inl e \<Rightarrow> Inl e | Inr zs \<Rightarrow> Inr (max x y # zs))
      else Inl ShapeMismatch)"
| "broadcast_dims [] (y # ys) = Inl ShapeMismatch"
| "broadcast_dims (x # xs) [] = Inl ShapeMismatch"

definition shape_broadcast :: "nat list \<Rightarrow> nat list \<Rightarrow> error + nat list" where
  "shape_broadcast shape_a shape_b =
     (let n = max (length shape_a) (length shape_b)
      in broadcast_dims (pad_shape n shape_a) (pad_shape n shape_b))"

text \<open>Modelled from the spec: the canonical row-major strides of a shape.\<close>

fun row_major_strides :: "nat list \<Rightarrow> nat list" where
  "row_major_strides [] = []"
| "row_major_strides (d # shp) = prod_list shp # row_major_strides shp"

section \<open>The low-level procedures\<close>

subsection \<open>\<^verbatim>\<open>tensor_map\<close>\<close>

text \<open>
  One iteration of the loop of \<^verbatim>\<open>_map\<close>: the two index buffers are rewritten from the
  ordinal, the right-hand side \<^verbatim>\<open>fn(in_storage[in_pos])\<close> is evaluated, then stored.
\<close>

definition map_body ::
  "('a \<Rightarrow> 'a) \<Rightarrow> ref \<Rightarrow> nat list \<Rightarrow> nat list \<Rightarrow> ref \<Rightarrow> nat list \<Rightarrow> nat list
    \<Rightarrow> nat \<Rightarrow> 'a store \<Rightarrow> error + 'a store" where
  "map_body fn out out_shape out_strides in_storage in_shape in_strides i s =
     (case to_index i out_shape of Inl e \<Rightarrow> Inl e | Inr out_index \<Rightarrow>
       (case broadcast_index out_index out_shape in_shape of Inl e \<Rightarrow> Inl e
        | Inr in_index \<Rightarrow>
           (let out_pos = index_to_position out_index out_strides;
                in_pos = index_to_position in_index in_strides
            in (case storage_get s in_storage in_pos of Inl e \<Rightarrow> Inl e
                | Inr x \<Rightarrow> storage_set s out out_pos (fn x)))))"

definition tensor_map ::
  "('a \<Rightarrow> 'a) \<Rightarrow> ref \<Rightarrow> nat list \<Rightarrow> nat list \<Rightarrow> ref \<Rightarrow> nat list \<Rightarrow> nat list
    \<Rightarrow> 'a store \<Rightarrow> error + 'a store" where
  "tensor_map fn out out_shape out_strides in_storage in_shape in_strides s =
     for_each (map_body fn out out_shape out_strides in_storage in_shape in_strides)
       [0..<prod_list out_shape] s"

subsection \<open>\<^verbatim>\<open>tensor_zip\<close>\<close>

text \<open>The loop body of the branch taken when the three shapes are equal.\<close>

definition zip_fast_body ::
  "('a \<Rightarrow> 'a \<Rightarrow> 'a) \<Rightarrow> ref \<Rightarrow> nat list \<Rightarrow> nat list \<Rightarrow> ref \<Rightarrow> nat list \<Rightarrow> ref \<Rightarrow> nat list
    \<Rightarrow> nat \<Rightarrow> 'a store \<Rightarrow> error + 'a store" where
  "zip_fast_body fn out out_shape out_strides a_storage a_strides b_storage b_strides
       ordinal s =
     (case to_index ordinal out_shape of Inl e \<Rightarrow> Inl e | Inr out_index \<Rightarrow>
       (let out_pos = index_to_position out_index out_strides;
            a_pos = index_to_position out_index a_strides;
            b_pos = index_to_position out_index b_strides
        in (case storage_get s a_storage a_pos of Inl e \<Rightarrow> Inl e | Inr x \<Rightarrow>
             (case storage_get s b_storage b_pos of Inl e \<Rightarrow> Inl e
              | Inr y \<Rightarrow> storage_set s out out_pos (fn x y)))))"

definition zip_fast ::
  "('a \<Rightarrow> 'a \<Rightarrow> 'a) \<Rightarrow> ref \<Rightarrow> nat list \<Rightarrow> nat list \<Rightarrow> ref \<Rightarrow> nat list \<Rightarrow> ref \<Rightarrow> nat list
    \<Rightarrow> 'a store \<Rightarrow> error + 'a store" where
  "zip_fast fn out out_shape out_strides a_storage a_strides b_storage b_strides s =
     for_each (zip_fast_body fn out out_shape out_strides a_storage a_strides
                 b_storage b_strides)
       [0..<prod_list out_shape] s"

text \<open>
  The inner loop of the general branch,
  \<^verbatim>\<open>for i in range(len(a_shape)): a_index[i] = 0 if a_shape[i] == 1 else out_index[i]\<close>,
  on the buffer \<open>a_index\<close>. The buffer has \<open>len(a_shape)\<close> entries, so only the read of
  \<open>out_index[i]\<close> can be out of range.
\<close>

definition fill_index :: "nat list \<Rightarrow> nat list \<Rightarrow> nat list \<Rightarrow> error + nat list" where
  "fill_index out_index shp buf =
     for_each (\<lambda>i a_index.
        if shp ! i = 1 then Inr (a_index[i := 0])
        else if i < length out_index then Inr (a_index[i := out_index ! i])
        else Inl IndexError)
       [0..<length shp] buf"

text \<open>
  The loop body of the general branch. The buffers \<open>a_index\<close> and \<open>b_index\<close> are
  allocated once, before the loop, and live across iterations, so they are part of the
  loop state.
\<close>

definition zip_general_body ::
  "('a \<Rightarrow> 'a \<Rightarrow> 'a) \<Rightarrow> ref \<Rightarrow> nat list \<Rightarrow> nat list \<Rightarrow> ref \<Rightarrow> nat list \<Rightarrow> nat list
    \<Rightarrow> ref \<Rightarrow> nat list \<Rightarrow> nat list
    \<Rightarrow> nat \<Rightarrow> 'a store \<times> nat list \<times> nat list \<Rightarrow> error + 'a store \<times> nat list \<times> nat list" where
  "zip_general_body fn out out_shape out_strides a_storage a_shape a_strides
       b_storage b_shape b_strides ordinal st =
     (case st of (s, a_buf, b_buf) \<Rightarrow>
       (case to_index ordinal out_shape of Inl e \<Rightarrow> Inl e | Inr out_index \<Rightarrow>
         (case fill_index out_index a_shape a_buf of Inl e \<Rightarrow> Inl e | Inr a_index \<Rightarrow>
           (case fill_index out_index b_shape b_buf of Inl e \<Rightarrow> Inl e | Inr b_index \<Rightarrow>
             (let out_pos = index_to_position out_index out_strides;
                  a_pos = index_to_position a_index a_strides;
                  b_pos = index_to_position b_index b_strides
              in (case storage_get s a_storage a_pos of Inl e \<Rightarrow> Inl e | Inr x \<Rightarrow>
                   (case storage_get s b_storage b_pos of Inl e \<Rightarrow> Inl e | Inr y \<Rightarrow>
                     (case storage_set s out out_pos (fn x y) of Inl e \<Rightarrow> Inl e
                      | Inr s' \<Rightarrow> Inr (s', a_index, b_index)))))))))"

definition zip_general ::
  "('a \<Rightarrow> 'a \<Rightarrow> 'a) \<Rightarrow> ref \<Rightarrow> nat list \<Rightarrow> nat list \<Rightarrow> ref \<Rightarrow> nat list \<Rightarrow> nat list
    \<Rightarrow> ref \<Rightarrow> nat list \<Rightarrow> nat list \<Rightarrow> 'a store \<Rightarrow> error + 'a store" where
  "zip_general fn out out_shape out_strides a_storage a_shape a_strides
       b_storage b_shape b_strides s =
     (case for_each (zip_general_body fn out out_shape out_strides a_storage a_shape
                       a_strides b_storage b_shape b_strides)
             [0..<prod_list out_shape]
             (s, replicate (length a_shape) 0, replicate (length b_shape) 0)
      of Inl e \<Rightarrow> Inl e | Inr (s', a_index, b_index) \<Rightarrow> Inr s')"

definition tensor_zip ::
  "('a \<Rightarrow> 'a \<Rightarrow> 'a) \<Rightarrow> ref \<Rightarrow> nat list \<Rightarrow> nat list \<Rightarrow> ref \<Rightarrow> nat list \<Rightarrow> nat list
    \<Rightarrow> ref \<Rightarrow> nat list \<Rightarrow> nat list \<Rightarrow> 'a store \<Rightarrow> error + 'a store" where
  "tensor_zip fn out out_shape out_strides a_storage a_shape a_strides
       b_storage b_shape b_strides s =
     (if a_shape = b_shape \<and> a_shape = out_shape \<and> b_shape = out_shape
      then zip_fast fn out out_shape out_strides a_storage a_strides b_storage b_strides s
      else zip_general fn out out_shape out_strides a_storage a_shape a_strides
             b_storage b_shape b_strides s)"

subsection \<open>\<^verbatim>\<open>tensor_reduce\<close>\<close>

text \<open>
  The inner loop of \<^verbatim>\<open>_reduce\<close> carries \<open>res\<close>, which starts as \<^verbatim>\<open>None\<close>; the store is
  only read.
\<close>

definition reduce_step ::
  "('a \<Rightarrow> 'a \<Rightarrow> 'a) \<Rightarrow> 'a store \<Rightarrow> ref \<Rightarrow> nat list \<Rightarrow> nat list \<Rightarrow> int
    \<Rightarrow> nat \<Rightarrow> 'a option \<Rightarrow> error + 'a option" where
  "reduce_step fn s a_storage a_strides out_index reduce_dim reduce_pos res =
     (case py_index (length out_index) reduce_dim of Inl e \<Rightarrow> Inl e | Inr d \<Rightarrow>
       (let a_index = out_index[d := reduce_pos];
            a_storage_pos = index_to_position a_index a_strides
        in (case storage_get s a_storage a_storage_pos of Inl e \<Rightarrow> Inl e | Inr x \<Rightarrow>
             (case res of None \<Rightarrow> Inr (Some x) | Some r \<Rightarrow> Inr (Some (fn r x))))))"

text \<open>
  One iteration of the outer loop. When the inner loop does not run, \<open>res\<close> is still
  \<^verbatim>\<open>None\<close> at the assignment \<^verbatim>\<open>out[out_storage_pos] = res\<close>; \<open>none_val\<close> is what the
  storage then holds in that cell (a NaN for an array of floats). It is a parameter
  because the storage type is declared in \<^verbatim>\<open>tensor_data.py\<close>.
\<close>

definition reduce_body ::
  "'a \<Rightarrow> ('a \<Rightarrow> 'a \<Rightarrow> 'a) \<Rightarrow> ref \<Rightarrow> nat list \<Rightarrow> nat list \<Rightarrow> ref \<Rightarrow> nat list \<Rightarrow> int \<Rightarrow> nat
    \<Rightarrow> nat \<Rightarrow> 'a store \<Rightarrow> error + 'a store" where
  "reduce_body none_val fn out out_shape out_strides a_storage a_strides reduce_dim dim_size
       out_pos s =
     (case to_index out_pos out_shape of Inl e \<Rightarrow> Inl e | Inr out_index \<Rightarrow>
       (let out_storage_pos = index_to_position out_index out_strides
        in (case for_each (reduce_step fn s a_storage a_strides out_index reduce_dim)
                   [0..<dim_size] None
            of Inl e \<Rightarrow> Inl e
             | Inr res \<Rightarrow>
                 storage_set s out out_storage_pos
                   (case res of None \<Rightarrow> none_val | Some v \<Rightarrow> v))))"

definition tensor_reduce ::
  "'a \<Rightarrow> ('a \<Rightarrow> 'a \<Rightarrow> 'a) \<Rightarrow> ref \<Rightarrow> nat list \<Rightarrow> nat list \<Rightarrow> ref \<Rightarrow> nat list \<Rightarrow> nat list \<Rightarrow> int
    \<Rightarrow> 'a store \<Rightarrow> error + 'a store" where
  "tensor_reduce none_val fn out out_shape out_strides a_storage a_shape a_strides
       reduce_dim s =
     (case py_index (length a_shape) reduce_dim of Inl e \<Rightarrow> Inl e | Inr d \<Rightarrow>
       (let dim_size = a_shape ! d
        in for_each (reduce_body none_val fn out out_shape out_strides a_storage a_strides
                       reduce_dim dim_size)
             [0..<length (cells s out)] s))"

section \<open>Tensors and the operation factory\<close>

text \<open>
  Modelled from the spec: the tensor class (\<^verbatim>\<open>tensor.py\<close>) is not among the sources. A
  tensor exposes a storage, a shape and strides (\<^verbatim>\<open>a.tuple()\<close>), and \<^verbatim>\<open>a.zeros(shape)\<close>
  produces a new zero-filled tensor of that shape, in a new storage with the canonical
  row-major strides.
\<close>

record tensor =
  storage :: ref
  shape :: "nat list"
  strides :: "nat list"

definition zeros :: "'a::zero store \<Rightarrow> nat list \<Rightarrow> tensor \<times> 'a store" where
  "zeros s shp =
     (\<lparr>storage = next_ref s, shape = shp, strides = row_major_strides shp\<rparr>,
      s\<lparr>cells := (cells s)(next_ref s := replicate (prod_list shp) 0),
        next_ref := Suc (next_ref s)\<rparr>)"

text \<open>\<^verbatim>\<open>SimpleOps.map(fn)\<close>, the closure \<^verbatim>\<open>ret(a, out=None)\<close>.\<close>

definition SimpleOps_map ::
  "('a \<Rightarrow> 'a) \<Rightarrow> tensor \<Rightarrow> tensor option \<Rightarrow> 'a::zero store \<Rightarrow> error + tensor \<times> 'a store" where
  "SimpleOps_map fn a out_arg s =
     (case (case out_arg of None \<Rightarrow> zeros s (shape a) | Some t \<Rightarrow> (t, s)) of (out, s1) \<Rightarrow>
       (case tensor_map fn (storage out) (shape out) (strides out)
               (storage a) (shape a) (strides a) s1
        of Inl e \<Rightarrow> Inl e | Inr s2 \<Rightarrow> Inr (out, s2)))"

text \<open>\<^verbatim>\<open>SimpleOps.zip(fn)\<close>, the closure \<^verbatim>\<open>ret(a, b)\<close>.\<close>

definition SimpleOps_zip ::
  "('a \<Rightarrow> 'a \<Rightarrow> 'a) \<Rightarrow> tensor \<Rightarrow> tensor \<Rightarrow> 'a::zero store \<Rightarrow> error + tensor \<times> 'a store" where
  "SimpleOps_zip fn a b s =
     (case (if shape a \<noteq> shape b then shape_broadcast (shape a) (shape b)
            else Inr (shape a))
      of Inl e \<Rightarrow> Inl e | Inr c_shape \<Rightarrow>
       (case zeros s c_shape of (out, s1) \<Rightarrow>
         (case tensor_zip fn (storage out) (shape out) (strides out)
                 (storage a) (shape a) (strides a) (storage b) (shape b) (strides b) s1
          of Inl e \<Rightarrow> Inl e | Inr s2 \<Rightarrow> Inr (out, s2))))"

text \<open>
  \<^verbatim>\<open>SimpleOps.reduce(fn, start)\<close>, the closure \<^verbatim>\<open>ret(a, dim)\<close> (the argument \<^verbatim>\<open>dim\<close> is \<open>reduce_dim\<close> here):
  \<^verbatim>\<open>out_shape[dim] = 1\<close> on the list copy of the shape, a zero tensor of that shape,
  the slice assignment \<^verbatim>\<open>out._tensor._storage[:] = start\<close>, then the call of \<^verbatim>\<open>_reduce\<close>.
\<close>

definition SimpleOps_reduce ::
  "'a \<Rightarrow> ('a \<Rightarrow> 'a \<Rightarrow> 'a) \<Rightarrow> 'a \<Rightarrow> tensor \<Rightarrow> int \<Rightarrow> 'a::zero store \<Rightarrow> error + tensor \<times> 'a store" where
  "SimpleOps_reduce none_val fn start a reduce_dim s =
     (case py_index (length (shape a)) reduce_dim of Inl e \<Rightarrow> Inl e | Inr d \<Rightarrow>
       (let out_shape = (shape a)[d := 1]
        in (case zeros s out_shape of (out, s1) \<Rightarrow>
             (let s2 = s1\<lparr>cells := (cells s1)(storage out :=
                             map (\<lambda>_. start) (cells s1 (storage out)))\<rparr>
              in (case tensor_reduce none_val fn (storage out) (shape out) (strides out)
                        (storage a) (shape a) (strides a) reduce_dim s2
                  of Inl e \<Rightarrow> Inl e | Inr s3 \<Rightarrow> Inr (out, s3))))))"

text \<open>\<^verbatim>\<open>matrix_multiply\<close> of \<^verbatim>\<open>TensorOps\<close> and its override in \<^verbatim>\<open>SimpleOps\<close>.\<close>

definition TensorOps_matrix_multiply ::
  "tensor \<Rightarrow> tensor \<Rightarrow> 'a store \<Rightarrow> error + tensor \<times> 'a store" where
  "TensorOps_matrix_multiply a b s = Inl NotImplementedError"

definition SimpleOps_matrix_multiply ::
  "tensor \<Rightarrow> tensor \<Rightarrow> 'a store \<Rightarrow> error + tensor \<times> 'a store" where
  "SimpleOps_matrix_multiply a b s = Inl NotImplementedError"

text \<open>
  A class of tensor operations, as \<^verbatim>\<open>TensorBackend.__init__\<close> uses it: its four static
  methods and the attribute \<^verbatim>\<open>cuda\<close>. \<^verbatim>\<open>SimpleOps\<close> overrides the four methods and inherits
  \<^verbatim>\<open>cuda = False\<close> from \<^verbatim>\<open>TensorOps\<close>.
\<close>

record 'a tensor_ops =
  ops_map :: "('a \<Rightarrow> 'a) \<Rightarrow> tensor \<Rightarrow> tensor option \<Rightarrow> 'a store \<Rightarrow> error + tensor \<times> 'a store"
  ops_zip :: "('a \<Rightarrow> 'a \<Rightarrow> 'a) \<Rightarrow> tensor \<Rightarrow> tensor \<Rightarrow> 'a store \<Rightarrow> error + tensor \<times> 'a store"
  ops_reduce ::
    "('a \<Rightarrow> 'a \<Rightarrow> 'a) \<Rightarrow> 'a \<Rightarrow> tensor \<Rightarrow> int \<Rightarrow> 'a store \<Rightarrow> error + tensor \<times> 'a store"
  ops_matrix_multiply :: "tensor \<Rightarrow> tensor \<Rightarrow> 'a store \<Rightarrow> error + tensor \<times> 'a store"
  ops_cuda :: bool

definition SimpleOps :: "'a \<Rightarrow> 'a::zero tensor_ops" where
  "SimpleOps none_val =
     \<lparr>ops_map = SimpleOps_map, ops_zip = SimpleOps_zip,
      ops_reduce = SimpleOps_reduce none_val,
      ops_matrix_multiply = SimpleOps_matrix_multiply, ops_cuda = False\<rparr>"

text \<open>
  Modelled from the spec: \<^verbatim>\<open>operators.py\<close> is not among the sources; identity, negation,
  addition and multiplication are the catalogue entries of that name.
\<close>

definition operators_id :: "'a \<Rightarrow> 'a" where
  "operators_id x = x"

definition operators_neg :: "'a::uminus \<Rightarrow> 'a" where
  "operators_neg x = - x"

definition operators_add :: "'a::plus \<Rightarrow> 'a \<Rightarrow> 'a" where
  "operators_add x y = x + y"

definition operators_mul :: "'a::times \<Rightarrow> 'a \<Rightarrow> 'a" where
  "operators_mul x y = x * y"

text \<open>
  \<^verbatim>\<open>TensorBackend(ops)\<close>: the table of bound operations. The entries bound to the
  transcendental and comparison operators (sigmoid, relu, log, exp, inv, lt, eq,
  is_close and the three gradient helpers) are built in the same way from
  \<open>ops_map\<close> and \<open>ops_zip\<close> and are left out of the record.
\<close>

record 'a tensor_backend =
  neg_map :: "tensor \<Rightarrow> tensor option \<Rightarrow> 'a store \<Rightarrow> error + tensor \<times> 'a store"
  id_map :: "tensor \<Rightarrow> tensor option \<Rightarrow> 'a store \<Rightarrow> error + tensor \<times> 'a store"
  add_zip :: "tensor \<Rightarrow> tensor \<Rightarrow> 'a store \<Rightarrow> error + tensor \<times> 'a store"
  mul_zip :: "tensor \<Rightarrow> tensor \<Rightarrow> 'a store \<Rightarrow> error + tensor \<times> 'a store"
  add_reduce :: "tensor \<Rightarrow> int \<Rightarrow> 'a store \<Rightarrow> error + tensor \<times> 'a store"
  mul_reduce :: "tensor \<Rightarrow> int \<Rightarrow> 'a store \<Rightarrow> error + tensor \<times> 'a store"
  matrix_multiply :: "tensor \<Rightarrow> tensor \<Rightarrow> 'a store \<Rightarrow> error + tensor \<times> 'a store"
  cuda :: bool

definition TensorBackend :: "'a::ring_1 tensor_ops \<Rightarrow> 'a tensor_backend" where
  "TensorBackend ops =
     \<lparr>neg_map = ops_map ops operators_neg,
      id_map = ops_map ops operators_id,
      add_zip = ops_zip ops operators_add,
      mul_zip = ops_zip ops operators_mul,
      add_reduce = ops_reduce ops operators_add 0,
      mul_reduce = ops_reduce ops operators_mul 1,
      matrix_multiply = ops_matrix_multiply ops,
      cuda = ops_cuda ops\<rparr>"

definition SimpleBackend :: "'a \<Rightarrow> 'a::ring_1 tensor_backend" where
  "SimpleBackend none_val = TensorBackend (SimpleOps none_val)"

section \<open>Vocabulary of the verification\<close>

text \<open>
  The precondition of \<^verbatim>\<open>_map\<close> and \<^verbatim>\<open>_zip\<close>: a shape broadcasts to a bigger one when it
  has no more dimensions and, aligned with the trailing dimensions of the bigger shape,
  every size is 1 or equal to the size it is aligned with.
\<close>

definition broadcasts_to :: "nat list \<Rightarrow> nat list \<Rightarrow> bool" where
  "broadcasts_to shp big_shape =
     (length shp \<le> length big_shape
      \<and> list_all2 (\<lambda>d b. d = 1 \<or> d = b) shp (drop (length big_shape - length shp) big_shape))"

text \<open>
  A storage of \<open>len\<close> cells holds a tensor of the given shape and strides when the
  position of every index of the shape is inside the storage. The indices of a shape are
  enumerated by their ordinals.
\<close>

definition in_range :: "nat list \<Rightarrow> nat list \<Rightarrow> nat \<Rightarrow> bool" where
  "in_range shp strds len =
     list_all (\<lambda>i. index_to_position (row_major_index i shp) strds < len) [0..<prod_list shp]"

text \<open>
  The storage position that the index at an ordinal has under given strides, and the
  position of the index it broadcasts to in a smaller shape.
\<close>

definition ordinal_position :: "nat list \<Rightarrow> nat list \<Rightarrow> nat \<Rightarrow> nat" where
  "ordinal_position out_shape out_strides i = index_to_position (row_major_index i out_shape) out_strides"

definition broadcast_position :: "nat list \<Rightarrow> nat list \<Rightarrow> nat list \<Rightarrow> nat \<Rightarrow> nat" where
  "broadcast_position out_shape in_shape in_strides i =
     index_to_position (map2 (\<lambda>d b. if d = 1 then 0 else b) in_shape
        (drop (length out_shape - length in_shape) (row_major_index i out_shape))) in_strides"

text \<open>
  Strides lay a shape out on a storage of \<open>len\<close> cells when the storage has one cell per
  index and different indices have different positions inside it. The row-major strides
  of a fresh tensor are such a layout (\<open>valid_layout_row_major\<close> below).
\<close>

definition valid_layout :: "nat list \<Rightarrow> nat list \<Rightarrow> nat \<Rightarrow> bool" where
  "valid_layout shp strds len =
     (len = prod_list shp \<and> in_range shp strds len
      \<and> distinct (map (ordinal_position shp strds) [0..<prod_list shp]))"

text \<open>
  The effect of a trace of subscript assignments on the contents of one storage.
\<close>

definition replay :: "(ref \<times> nat \<times> 'a) list \<Rightarrow> ref \<Rightarrow> 'a list \<Rightarrow> 'a list" where
  "replay ws r c = fold (\<lambda>(r', p, v) c. if r' = r then c[p := v] else c) ws c"

text \<open>
  How often a trace assigns to a position of a storage.
\<close>

definition times_written :: "ref \<Rightarrow> nat \<Rightarrow> (ref \<times> nat \<times> 'a) list \<Rightarrow> nat" where
  "times_written r p ws = length (filter (\<lambda>(r', p', v). r' = r \<and> p' = p) ws)"

text \<open>
  An invocation of one of the three procedures with its arguments, the storage it
  writes to, and the preconditions the specification puts on it: the input shapes
  broadcast to the output shape (with equal ranks for \<^verbatim>\<open>_zip\<close>), the output shape is the
  input shape with the reduced dimension set to 1 for \<^verbatim>\<open>_reduce\<close>, every tensor is held
  by its storage, the output strides are a layout of the output storage, and no input
  storage is the output storage.
\<close>

datatype 'a invocation =
    Map "'a \<Rightarrow> 'a" ref "nat list" "nat list" ref "nat list" "nat list"
  | Zip "'a \<Rightarrow> 'a \<Rightarrow> 'a" ref "nat list" "nat list" ref "nat list" "nat list" ref "nat list" "nat list"
  | Reduce 'a "'a \<Rightarrow> 'a \<Rightarrow> 'a" ref "nat list" "nat list" ref "nat list" "nat list" int

fun run :: "'a invocation \<Rightarrow> 'a store \<Rightarrow> error + 'a store" where
  "run (Map fn out out_shape out_strides in_storage in_shape in_strides) s =
     tensor_map fn out out_shape out_strides in_storage in_shape in_strides s"
| "run (Zip fn out out_shape out_strides a_storage a_shape a_strides b_storage b_shape b_strides) s =
     tensor_zip fn out out_shape out_strides a_storage a_shape a_strides
       b_storage b_shape b_strides s"
| "run (Reduce none_val fn out out_shape out_strides a_storage a_shape a_strides reduce_dim) s =
     tensor_reduce none_val fn out out_shape out_strides a_storage a_shape a_strides reduce_dim s"

fun output_of :: "'a invocation \<Rightarrow> ref" where
  "output_of (Map fn out out_shape out_strides in_storage in_shape in_strides) = out"
| "output_of (Zip fn out out_shape out_strides a_storage a_shape a_strides
                b_storage b_shape b_strides) = out"
| "output_of (Reduce none_val fn out out_shape out_strides a_storage a_shape a_strides
                reduce_dim) = out"

fun valid_call :: "'a invocation \<Rightarrow> 'a store \<Rightarrow> bool" where
  "valid_call (Map fn out out_shape out_strides in_storage in_shape in_strides) s =
     (broadcasts_to in_shape out_shape
      \<and> valid_layout out_shape out_strides (length (cells s out))
      \<and> in_range in_shape in_strides (length (cells s in_storage))
      \<and> in_storage \<noteq> out)"
| "valid_call (Zip fn out out_shape out_strides a_storage a_shape a_strides
                 b_storage b_shape b_strides) s =
     (length a_shape = length out_shape \<and> length b_shape = length out_shape
      \<and> broadcasts_to a_shape out_shape \<and> broadcasts_to b_shape out_shape
      \<and> valid_layout out_shape out_strides (length (cells s out))
      \<and> in_range a_shape a_strides (length (cells s a_storage))
      \<and> in_range b_shape b_strides (length (cells s b_storage))
      \<and> a_storage \<noteq> out \<and> b_storage \<noteq> out)"
| "valid_call (Reduce none_val fn out out_shape out_strides a_storage a_shape a_strides
                 reduce_dim) s =
     ((case py_index (length a_shape) reduce_dim of
         Inl e \<Rightarrow> False | Inr d \<Rightarrow> out_shape = a_shape[d := 1])
      \<and> valid_layout out_shape out_strides (length (cells s out))
      \<and> in_range a_shape a_strides (length (cells s a_storage))
      \<and> a_storage \<noteq> out)"

text \<open>
  The fold that the specification describes for \<^verbatim>\<open>_reduce\<close>: the elements are combined
  from left to right and the first element is the initial accumulator. With no element
  at all there is nothing to combine and the result is the value given for that case.
  \<open>reduce_elems\<close> lists the elements of the input along the reduced dimension, by
  increasing \<open>reduce_pos\<close>.
\<close>

definition left_fold :: "'a \<Rightarrow> ('a \<Rightarrow> 'a \<Rightarrow> 'a) \<Rightarrow> 'a list \<Rightarrow> 'a" where
  "left_fold none_val fn xs = (case xs of [] \<Rightarrow> none_val | x # rest \<Rightarrow> foldl fn x rest)"

definition reduce_elems :: "'a list \<Rightarrow> nat list \<Rightarrow> nat list \<Rightarrow> nat \<Rightarrow> nat \<Rightarrow> 'a list" where
  "reduce_elems a a_strides out_index d dim_size =
     map (\<lambda>k. a ! index_to_position (out_index[d := k]) a_strides) [0..<dim_size]"

text \<open>
  The value \<^verbatim>\<open>_reduce\<close> computes for the output ordinal \<open>i\<close> when \<open>d\<close> is the reduced
  dimension of the tensor \<open>a\<close>.
\<close>

definition reduce_value ::
  "'a \<Rightarrow> ('a \<Rightarrow> 'a \<Rightarrow> 'a) \<Rightarrow> 'a store \<Rightarrow> tensor \<Rightarrow> nat \<Rightarrow> nat \<Rightarrow> 'a" where
  "reduce_value none_val fn s a d i =
     left_fold none_val fn
       (reduce_elems (cells s (storage a)) (strides a)
          (row_major_index i ((shape a)[d := 1])) d (shape a ! d))"

text \<open>
  The value \<^verbatim>\<open>_map\<close> computes for the output ordinal \<open>i\<close> when input and output have
  the shape of the tensor \<open>a\<close>.
\<close>

definition mapped_value :: "('a \<Rightarrow> 'a) \<Rightarrow> 'a store \<Rightarrow> tensor \<Rightarrow> nat \<Rightarrow> 'a" where
  "mapped_value fn s a i =
     fn (cells s (storage a) ! index_to_position (row_major_index i (shape a)) (strides a))"

text \<open>
  The element of a tensor at a multi-dimensional index, read through its strides.
\<close>

definition element_at :: "'a store \<Rightarrow> tensor \<Rightarrow> nat list \<Rightarrow> error + 'a" where
  "element_at s t index = storage_get s (storage t) (index_to_position index (strides t))"

text \<open>
  Concrete stores for the examples: \<open>store0\<close> holds a storage of four zeros and the
  storage \<open>[5, 7]\<close>; \<open>store1\<close> holds the six elements of a 2 by 3 tensor and a storage of
  two zeros; \<open>store2\<close> holds four ones; \<open>store3\<close> has one allocated storage, which is
  empty.
\<close>

definition store0 :: "real store" where
  "store0 = \<lparr>cells = (\<lambda>_. [])(0 := [0, 0, 0, 0], 1 := [5, 7]), next_ref = 2, writes = []\<rparr>"

definition store1 :: "real store" where
  "store1 = \<lparr>cells = (\<lambda>_. [])(0 := [10, 3, 2, 1, 5, 20], 1 := [0, 0]), next_ref = 2, writes = []\<rparr>"

definition store2 :: "real store" where
  "store2 = \<lparr>cells = (\<lambda>_. [])(0 := [1, 1, 1, 1]), next_ref = 1, writes = []\<rparr>"

definition store3 :: "'a store" where
  "store3 = \<lparr>cells = (\<lambda>_. []), next_ref = 1, writes = []\<rparr>"

section \<open>Properties of the index arithmetic\<close>

lemma length_row_major_index [simp]: "length (row_major_index i shp) = length shp"
  by (induction shp arbitrary: i) auto

lemma length_row_major_strides [simp]: "length (row_major_strides shp) = length shp"
  by (induction shp) auto

lemma index_to_position_Nil [simp]: "index_to_position [] st = 0" "index_to_position ix [] = 0"
  by (simp_all add: index_to_position_def)

lemma index_to_position_Cons [simp]:
  "index_to_position (i # ix) (t # st) = i * t + index_to_position ix st"
  by (simp add: index_to_position_def)

lemma row_major_index_less:
  "i < prod_list shp \<Longrightarrow> list_all2 (<) (row_major_index i shp) shp"
proof (induction shp arbitrary: i)
  case Nil
  then show ?case by simp
next
  case (Cons d shp)
  then have pos: "0 < prod_list shp" by (cases "prod_list shp = 0") auto
  have "i div prod_list shp < d"
    using Cons.prems pos by (simp add: less_mult_imp_div_less mult.commute)
  moreover have "i mod prod_list shp < prod_list shp" using pos by simp
  ultimately show ?case using Cons.IH by simp
qed

lemma position_row_major_index:
  "i < prod_list shp \<Longrightarrow> index_to_position (row_major_index i shp) (row_major_strides shp) = i"
proof (induction shp arbitrary: i)
  case Nil
  then show ?case by simp
next
  case (Cons d shp)
  then have pos: "0 < prod_list shp" by (cases "prod_list shp = 0") auto
  then have "i mod prod_list shp < prod_list shp" by simp
  then show ?case using Cons.IH by simp
qed

lemma position_less:
  "list_all2 (<) ix shp \<Longrightarrow> index_to_position ix (row_major_strides shp) < prod_list shp"
proof (induction ix shp rule: list_all2_induct)
  case Nil
  then show ?case by simp
next
  case (Cons i ix d shp)
  have "i * prod_list shp + index_to_position ix (row_major_strides shp)
          < i * prod_list shp + prod_list shp" using Cons by simp
  also have "\<dots> = Suc i * prod_list shp" by simp
  also have "\<dots> \<le> d * prod_list shp" using Cons.hyps(1) by (intro mult_le_mono1) simp
  finally show ?case by simp
qed

lemma row_major_index_position:
  "list_all2 (<) ix shp \<Longrightarrow> row_major_index (index_to_position ix (row_major_strides shp)) shp = ix"
proof (induction ix shp rule: list_all2_induct)
  case Nil
  then show ?case by simp
next
  case (Cons i ix d shp)
  let ?p = "index_to_position ix (row_major_strides shp)"
  have lt: "?p < prod_list shp" using Cons.hyps(2) by (rule position_less)
  then show ?case using Cons.IH by simp
qed

section \<open>Loops\<close>

lemma for_each_cong:
  "(\<And>i s. i \<in> set xs \<Longrightarrow> f i s = g i s) \<Longrightarrow> for_each f xs s = for_each g xs s"
  by (induction xs arbitrary: s) (auto split: sum.splits)

lemma for_each_append:
  "for_each f (xs @ ys) s =
     (case for_each f xs s of Inl e \<Rightarrow> Inl e | Inr s' \<Rightarrow> for_each f ys s')"
  by (induction xs arbitrary: s) (auto split: sum.splits)

lemma in_range_index:
  assumes "in_range shp strds len" and "list_all2 (<) ix shp"
  shows "index_to_position ix strds < len"
proof -
  let ?o = "index_to_position ix (row_major_strides shp)"
  have "?o < prod_list shp" using assms(2) by (rule position_less)
  moreover have "row_major_index ?o shp = ix" using assms(2) by (rule row_major_index_position)
  ultimately show ?thesis using assms(1) unfolding in_range_def list_all_iff
    by (metis atLeastLessThan_iff set_upt zero_le)
qed

lemma in_range_ordinal:
  "in_range shp strds len \<Longrightarrow> i < prod_list shp
    \<Longrightarrow> index_to_position (row_major_index i shp) strds < len"
  by (simp add: in_range_def list_all_iff)

lemma for_each_writes:
  assumes "\<And>i t. i \<in> set xs \<Longrightarrow> (\<forall>r. r \<noteq> out \<longrightarrow> cells t r = C r) \<Longrightarrow> length (cells t out) = n
             \<Longrightarrow> body i t = storage_set t out (p i) (v i)"
    and "\<And>i. i \<in> set xs \<Longrightarrow> p i < n"
    and "\<forall>r. r \<noteq> out \<longrightarrow> cells s r = C r"
    and "length (cells s out) = n"
  shows "for_each body xs s =
           Inr (s\<lparr>cells := (cells s)(out := fold (\<lambda>i c. c[p i := v i]) xs (cells s out)),
                  writes := writes s @ map (\<lambda>i. (out, p i, v i)) xs\<rparr>)"
  using assms
proof (induction xs arbitrary: s)
  case Nil
  then show ?case by simp
next
  case (Cons i xs)
  let ?s1 = "s\<lparr>cells := (cells s)(out := (cells s out)[p i := v i]),
                writes := writes s @ [(out, p i, v i)]\<rparr>"
  have b: "body i s = Inr ?s1"
    using Cons.prems(1)[of i s] Cons.prems(2)[of i] Cons.prems(3,4)
    by (simp add: storage_set_def)
  have step: "for_each body (i # xs) s = for_each body xs ?s1"
    by (simp only: for_each.simps b sum.case)
  have ih: "for_each body xs ?s1 =
          Inr (?s1\<lparr>cells := (cells ?s1)(out := fold (\<lambda>i c. c[p i := v i]) xs (cells ?s1 out)),
                   writes := writes ?s1 @ map (\<lambda>i. (out, p i, v i)) xs\<rparr>)"
  proof (rule Cons.IH)
    show "\<And>j t. j \<in> set xs \<Longrightarrow> \<forall>r. r \<noteq> out \<longrightarrow> cells t r = C r \<Longrightarrow> length (cells t out) = n
            \<Longrightarrow> body j t = storage_set t out (p j) (v j)"
      using Cons.prems(1) by simp
    show "\<And>j. j \<in> set xs \<Longrightarrow> p j < n" using Cons.prems(2) by simp
    show "\<forall>r. r \<noteq> out \<longrightarrow> cells ?s1 r = C r" using Cons.prems(3) by simp
    show "length (cells ?s1 out) = n" using Cons.prems(4) by simp
  qed
  have eq: "?s1\<lparr>cells := (cells ?s1)(out := fold (\<lambda>i c. c[p i := v i]) xs (cells ?s1 out)),
                   writes := writes ?s1 @ map (\<lambda>i. (out, p i, v i)) xs\<rparr>
     = s\<lparr>cells := (cells s)(out := fold (\<lambda>i c. c[p i := v i]) (i # xs) (cells s out)),
                  writes := writes s @ map (\<lambda>i. (out, p i, v i)) (i # xs)\<rparr>"
    by (rule store.equality) (simp_all add: fun_eq_iff)
  show ?case by (simp only: step ih eq)
qed

lemma length_fold_update [simp]:
  "length (fold (\<lambda>i c. c[p i := v i]) xs c) = length c"
  by (induction xs arbitrary: c) auto

lemma fold_update_other:
  "q \<notin> p ` set xs \<Longrightarrow> fold (\<lambda>i c. c[p i := v i]) xs c ! q = c ! q"
  by (induction xs arbitrary: c) auto

lemma fold_update_nth:
  "distinct (map p xs) \<Longrightarrow> j \<in> set xs \<Longrightarrow> p j < length c
    \<Longrightarrow> fold (\<lambda>i c. c[p i := v i]) xs c ! p j = v j"
proof (induction xs arbitrary: c)
  case Nil
  then show ?case by simp
next
  case (Cons i xs)
  show ?case
  proof (cases "j = i")
    case True
    then have "p j \<notin> p ` set xs" using Cons.prems(1) by auto
    then show ?thesis using True Cons.prems(3) by (simp add: fold_update_other)
  next
    case False
    then show ?thesis using Cons by auto
  qed
qed

lemma replay_append [simp]: "replay (ws @ ws') r c = replay ws' r (replay ws r c)"
  by (simp add: replay_def)

lemma replay_writes:
  "replay (map (\<lambda>i. (out, p i, v i)) xs) r c =
     (if r = out then fold (\<lambda>i c. c[p i := v i]) xs c else c)"
  by (induction xs arbitrary: c) (auto simp: replay_def)

section \<open>The map procedure\<close>

lemma broadcast_index_valid:
  assumes "broadcasts_to shp big_shape" and "list_all2 (<) ix big_shape"
  shows "list_all2 (<) (map2 (\<lambda>d b. if d = 1 then 0 else b) shp
           (drop (length big_shape - length shp) ix)) shp"
proof -
  let ?k = "length big_shape - length shp"
  have len: "length ix = length big_shape" using assms(2) by (rule list_all2_lengthD)
  have l2: "length (drop ?k ix) = length shp" using assms(1) len by (simp add: broadcasts_to_def)
  have a: "list_all2 (<) (drop ?k ix) (drop ?k big_shape)"
    using assms(2) by (rule list_all2_dropI)
  have b: "list_all2 (\<lambda>d b. d = 1 \<or> d = b) shp (drop ?k big_shape)"
    using assms(1) by (simp add: broadcasts_to_def)
  show ?thesis
    unfolding list_all2_conv_all_nth
  proof (intro conjI allI impI)
    show "length (map2 (\<lambda>d b. if d = 1 then 0 else b) shp (drop ?k ix)) = length shp"
      using l2 by simp
  next
    fix j assume "j < length (map2 (\<lambda>d b. if d = 1 then 0 else b) shp (drop ?k ix))"
    then have j: "j < length shp" by simp
    have "drop ?k ix ! j < drop ?k big_shape ! j"
      using list_all2_nthD[OF a] j l2 by simp
    moreover have "shp ! j = 1 \<or> shp ! j = drop ?k big_shape ! j"
      using list_all2_nthD[OF b] j by simp
    ultimately show "map2 (\<lambda>d b. if d = 1 then 0 else b) shp (drop ?k ix) ! j < shp ! j"
      using j l2 by auto
  qed
qed

lemma tensor_map_result:
  assumes bc: "broadcasts_to in_shape out_shape"
    and ro: "in_range out_shape out_strides (length (cells s out))"
    and ri: "in_range in_shape in_strides (length (cells s in_storage))"
    and ne: "in_storage \<noteq> out"
  shows "tensor_map fn out out_shape out_strides in_storage in_shape in_strides s =
     Inr (s\<lparr>cells := (cells s)(out :=
               fold (\<lambda>i c. c[ordinal_position out_shape out_strides i :=
                               fn (cells s in_storage ! broadcast_position out_shape in_shape in_strides i)])
                 [0..<prod_list out_shape] (cells s out)),
            writes := writes s @
               map (\<lambda>i. (out, ordinal_position out_shape out_strides i,
                          fn (cells s in_storage ! broadcast_position out_shape in_shape in_strides i)))
                 [0..<prod_list out_shape]\<rparr>)"
  unfolding tensor_map_def
proof (rule for_each_writes[where C = "cells s" and n = "length (cells s out)"])
  fix i and t :: "'a store"
  assume i: "i \<in> set [0..<prod_list out_shape]"
    and inv: "\<forall>r. r \<noteq> out \<longrightarrow> cells t r = cells s r"
  then have lt: "i < prod_list out_shape" by simp
  have v: "list_all2 (<) (row_major_index i out_shape) out_shape"
    using lt by (rule row_major_index_less)
  have "list_all2 (<) (map2 (\<lambda>d b. if d = 1 then 0 else b) in_shape
           (drop (length out_shape - length in_shape) (row_major_index i out_shape))) in_shape"
    using bc v by (rule broadcast_index_valid)
  then have "broadcast_position out_shape in_shape in_strides i < length (cells s in_storage)"
    unfolding broadcast_position_def using ri in_range_index by blast
  moreover have "cells t in_storage = cells s in_storage" using inv ne by simp
  ultimately show "map_body fn out out_shape out_strides in_storage in_shape in_strides i t =
      storage_set t out (ordinal_position out_shape out_strides i)
        (fn (cells s in_storage ! broadcast_position out_shape in_shape in_strides i))"
    using lt bc
    by (simp add: map_body_def to_index_def broadcast_index_def broadcasts_to_def
        storage_get_def ordinal_position_def broadcast_position_def)
next
  fix i assume "i \<in> set [0..<prod_list out_shape]"
  then show "ordinal_position out_shape out_strides i < length (cells s out)"
    using ro by (simp add: ordinal_position_def in_range_ordinal)
qed simp_all

text \<open>
  C1. When \<open>in_shape\<close> broadcasts to \<open>out_shape\<close>, both tensors are held by their
  storages and the input storage is not the output storage, \<^verbatim>\<open>_map\<close> returns, and during
  the call it executes exactly \<open>product(out_shape)\<close> subscript assignments, one for every
  ordinal and in the order of the ordinals: the assignment for the ordinal \<open>i\<close> is
  \<^verbatim>\<open>out[index_to_position(out_index, out_strides)] = fn(in_storage[index_to_position(in_index, in_strides)])\<close>
  with \<open>out_index = to_index(i, out_shape)\<close> and
  \<open>in_index = broadcast_index(out_index, out_shape, in_shape)\<close>. The output storage
  afterwards is the old one with these assignments applied, and no other storage changes.
\<close>

theorem tensor_map_writes:
  assumes "broadcasts_to in_shape out_shape"
    and "in_range out_shape out_strides (length (cells s out))"
    and "in_range in_shape in_strides (length (cells s in_storage))"
    and "in_storage \<noteq> out"
  shows "\<exists>s'. tensor_map fn out out_shape out_strides in_storage in_shape in_strides s = Inr s'
     \<and> take (length (writes s)) (writes s') = writes s
     \<and> length (writes s') = length (writes s) + prod_list out_shape
     \<and> (\<forall>i<prod_list out_shape. \<exists>out_index in_index.
           to_index i out_shape = Inr out_index
           \<and> broadcast_index out_index out_shape in_shape = Inr in_index
           \<and> writes s' ! (length (writes s) + i) =
               (out, index_to_position out_index out_strides,
                fn (cells s in_storage ! index_to_position in_index in_strides)))
     \<and> cells s' = (cells s)(out := replay (drop (length (writes s)) (writes s')) out (cells s out))"
proof -
  let ?p = "ordinal_position out_shape out_strides"
  let ?v = "\<lambda>i. fn (cells s in_storage ! broadcast_position out_shape in_shape in_strides i)"
  let ?s' = "s\<lparr>cells := (cells s)(out := fold (\<lambda>i c. c[?p i := ?v i])
                 [0..<prod_list out_shape] (cells s out)),
               writes := writes s @ map (\<lambda>i. (out, ?p i, ?v i)) [0..<prod_list out_shape]\<rparr>"
  have r: "tensor_map fn out out_shape out_strides in_storage in_shape in_strides s = Inr ?s'"
    using assms by (rule tensor_map_result)
  have w: "\<forall>i<prod_list out_shape. \<exists>out_index in_index.
           to_index i out_shape = Inr out_index
           \<and> broadcast_index out_index out_shape in_shape = Inr in_index
           \<and> writes ?s' ! (length (writes s) + i) =
               (out, index_to_position out_index out_strides,
                fn (cells s in_storage ! index_to_position in_index in_strides))"
    using assms(1)
    by (simp add: to_index_def broadcast_index_def broadcasts_to_def nth_append
        ordinal_position_def broadcast_position_def)
  have c: "cells ?s' = (cells s)(out := replay (drop (length (writes s)) (writes ?s')) out (cells s out))"
    by (simp add: replay_writes)
  show ?thesis
    apply (rule exI[of _ ?s'])
    apply (intro conjI)
    apply (rule r)
    apply simp
    apply simp
    apply (rule w)
    apply (rule c)
    done
qed

text \<open>
  The hypotheses of C1 hold for a map of negation from the storage \<open>[5, 7]\<close> of shape
  \<open>(2)\<close> to an output of shape \<open>(2, 2)\<close>; the fourth assignment writes \<open>- 7\<close> at position 3.
\<close>

theorem tensor_map_writes_witness:
  "broadcasts_to [2] [2, 2]
   \<and> in_range [2, 2] [2, 1] (length (cells store0 0))
   \<and> in_range [2] [1] (length (cells store0 1))
   \<and> (\<exists>s'. tensor_map uminus 0 [2, 2] [2, 1] 1 [2] [1] store0 = Inr s'
         \<and> length (writes s') = 4 \<and> writes s' ! 3 = (0, 3, - 7))"
proof -
  have h1: "broadcasts_to [2] [2, 2]" by code_simp
  have h2: "in_range [2, 2] [2, 1] (length (cells store0 0))" by code_simp
  have h3: "in_range [2] [1] (length (cells store0 1))" by code_simp
  have h4: "(1::nat) \<noteq> 0" by simp
  obtain s' where r: "tensor_map uminus 0 [2, 2] [2, 1] 1 [2] [1] store0 = Inr s'"
    and n: "length (writes s') = length (writes store0) + prod_list [2, 2]"
    and w: "\<forall>i<prod_list [2, 2]. \<exists>out_index in_index.
           to_index i [2, 2] = Inr out_index
           \<and> broadcast_index out_index [2, 2] [2] = Inr in_index
           \<and> writes s' ! (length (writes store0) + i) =
               (0, index_to_position out_index [2, 1],
                - (cells store0 1 ! index_to_position in_index [1]))"
    using tensor_map_writes[OF h1 h2 h3 h4, of uminus] by blast
  have t: "to_index 3 [2, 2] = Inr [1, 1]" by code_simp
  have b: "broadcast_index [1, 1] [2, 2] [2] = Inr [1]" by code_simp
  have "(3::nat) < prod_list [2, 2]" by simp
  with w obtain out_index in_index where
    o: "to_index 3 [2, 2] = Inr out_index"
    and i: "broadcast_index out_index [2, 2] [2] = Inr in_index"
    and e: "writes s' ! (length (writes store0) + 3) =
               (0, index_to_position out_index [2, 1],
                - (cells store0 1 ! index_to_position in_index [1]))"
    by blast
  have o': "out_index = [1, 1]" using o t by simp
  have i': "in_index = [1]" using i b unfolding o' by simp
  have "writes s' ! 3 = (0, 3, - 7)"
    using e unfolding o' i' by (simp add: store0_def index_to_position_def)
  moreover have "length (writes s') = 4" using n by (simp add: store0_def)
  ultimately show ?thesis using h1 h2 h3 r by blast
qed

section \<open>The zip procedure\<close>

lemma fill_index_prefix:
  "m \<le> length shp \<Longrightarrow> length buf = length shp \<Longrightarrow>
   for_each (\<lambda>i a_index.
        if shp ! i = 1 then Inr (a_index[i := 0])
        else if i < length out_index then Inr (a_index[i := out_index ! i])
        else Inl IndexError) [0..<m] buf =
     (if list_all (\<lambda>i. shp ! i = 1 \<or> i < length out_index) [0..<m]
      then Inr (map (\<lambda>i. if shp ! i = 1 then 0 else out_index ! i) [0..<m] @ drop m buf)
      else Inl IndexError)"
proof (induction m)
  case 0
  then show ?case by simp
next
  case (Suc m)
  have d: "drop m buf = buf ! m # drop (Suc m) buf"
    using Suc.prems by (simp add: Cons_nth_drop_Suc)
  show ?case using Suc d
    by (simp add: for_each_append list_update_append)
qed

lemma fill_index_eq:
  "length buf = length shp \<Longrightarrow>
   fill_index out_index shp buf =
     (if list_all (\<lambda>i. shp ! i = 1 \<or> i < length out_index) [0..<length shp]
      then Inr (map (\<lambda>i. if shp ! i = 1 then 0 else out_index ! i) [0..<length shp])
      else Inl IndexError)"
  unfolding fill_index_def by (subst fill_index_prefix) simp_all

lemma fill_index_same:
  assumes "list_all2 (<) ix shp" and "length buf = length shp"
  shows "fill_index ix shp buf = Inr ix"
proof -
  have len: "length ix = length shp" using assms(1) by (rule list_all2_lengthD)
  have "\<And>i. i < length shp \<Longrightarrow> ix ! i < shp ! i"
    using list_all2_nthD[OF assms(1)] len by simp
  then have "\<And>i. i < length shp \<Longrightarrow> (if shp ! i = 1 then 0 else ix ! i) = ix ! i"
    by (metis less_one)
  then have "map (\<lambda>i. if shp ! i = 1 then 0 else ix ! i) [0..<length shp] = map ((!) ix) [0..<length ix]"
    using len by simp
  then have m: "map (\<lambda>i. if shp ! i = 1 then 0 else ix ! i) [0..<length shp] = ix"
    by (simp only: map_nth)
  have "list_all (\<lambda>i. shp ! i = 1 \<or> i < length ix) [0..<length shp]"
    using len by (simp add: list_all_iff)
  then show ?thesis using assms(2) m by (simp only: fill_index_eq if_True)
qed

lemma for_each_rel:
  assumes "R s t"
    and "\<And>i s t. R s t \<Longrightarrow> rel_sum (=) R (f i s) (g i t)"
  shows "rel_sum (=) R (for_each f xs s) (for_each g xs t)"
  using assms(1)
proof (induction xs arbitrary: s t)
  case Nil
  then show ?case by simp
next
  case (Cons i xs)
  from assms(2)[OF Cons.prems, of i] show ?case
    by (cases rule: rel_sum.cases) (auto intro: Cons.IH)
qed

lemma zip_fast_general:
  "zip_fast fn out shp out_strides a_storage a_strides b_storage b_strides s =
   zip_general fn out shp out_strides a_storage shp a_strides b_storage shp b_strides s"
proof -
  define R :: "'a store \<Rightarrow> 'a store \<times> nat list \<times> nat list \<Rightarrow> bool" where
    "R = (\<lambda>t (t', ab, bb). t' = t \<and> length ab = length shp \<and> length bb = length shp)"
  have "rel_sum (=) R
     (for_each (zip_fast_body fn out shp out_strides a_storage a_strides b_storage b_strides)
        [0..<prod_list shp] s)
     (for_each (zip_general_body fn out shp out_strides a_storage shp a_strides
                  b_storage shp b_strides)
        [0..<prod_list shp] (s, replicate (length shp) 0, replicate (length shp) 0))"
  proof (rule for_each_rel)
    show "R s (s, replicate (length shp) 0, replicate (length shp) 0)" by (simp add: R_def)
  next
    fix i and t :: "'a store" and u :: "'a store \<times> nat list \<times> nat list"
    assume "R t u"
    then obtain ab bb where u: "u = (t, ab, bb)" and l: "length ab = length shp" "length bb = length shp"
      by (auto simp: R_def)
    show "rel_sum (=) R
        (zip_fast_body fn out shp out_strides a_storage a_strides b_storage b_strides i t)
        (zip_general_body fn out shp out_strides a_storage shp a_strides b_storage shp b_strides i u)"
    proof (cases "i < prod_list shp")
      case False
      then show ?thesis by (simp add: zip_fast_body_def zip_general_body_def to_index_def u)
    next
      case True
      then have v: "list_all2 (<) (row_major_index i shp) shp" by (rule row_major_index_less)
      show ?thesis using True l
        by (simp add: zip_fast_body_def zip_general_body_def to_index_def u
            fill_index_same[OF v] Let_def storage_get_def storage_set_def R_def)
    qed
  qed
  then show ?thesis
    unfolding zip_fast_def zip_general_def
    by (cases rule: rel_sum.cases) (auto simp: R_def)
qed

text \<open>
  C3. When the three shapes are equal, \<^verbatim>\<open>_zip\<close> takes the fast path, and the fast path
  returns what the general broadcasting path returns for the same arguments: the same
  error, or the same store, with the same contents of every storage and the same trace
  of assignments (the same values to the same positions in the same order). This holds
  for all strides and all storages, also when they overlap or are too short.
\<close>

theorem tensor_zip_fast_path:
  "tensor_zip fn out shp out_strides a_storage shp a_strides b_storage shp b_strides s =
     zip_fast fn out shp out_strides a_storage a_strides b_storage b_strides s
   \<and> zip_fast fn out shp out_strides a_storage a_strides b_storage b_strides s =
     zip_general fn out shp out_strides a_storage shp a_strides b_storage shp b_strides s"
  by (simp add: tensor_zip_def zip_fast_general)

lemma broadcast_dims_commute: "broadcast_dims xs ys = broadcast_dims ys xs"
  by (induction xs ys rule: broadcast_dims.induct) (auto simp: max_def split: sum.splits)

lemma shape_broadcast_commute: "shape_broadcast a b = shape_broadcast b a"
  by (simp add: shape_broadcast_def max.commute broadcast_dims_commute)

lemma zip_fast_commute:
  assumes "\<And>x y. fn x y = fn y x"
  shows "zip_fast fn out shp out_strides a_storage a_strides b_storage b_strides s =
         zip_fast fn out shp out_strides b_storage b_strides a_storage a_strides s"
  unfolding zip_fast_def
  by (rule for_each_cong)
    (auto simp: zip_fast_body_def storage_get_def Let_def assms split: sum.splits)

lemma zip_general_commute:
  assumes comm: "\<And>x y. fn x y = fn y x"
  shows "zip_general fn out out_shape out_strides a_storage a_shape a_strides
            b_storage b_shape b_strides s =
         zip_general fn out out_shape out_strides b_storage b_shape b_strides
            a_storage a_shape a_strides s"
proof -
  define R :: "'a store \<times> nat list \<times> nat list \<Rightarrow> 'a store \<times> nat list \<times> nat list \<Rightarrow> bool" where
    "R = (\<lambda>(t, ab, bb) (t', bb', ab'). t' = t \<and> ab' = ab \<and> bb' = bb
            \<and> length ab = length a_shape \<and> length bb = length b_shape)"
  have "rel_sum (=) R
     (for_each (zip_general_body fn out out_shape out_strides a_storage a_shape a_strides
                  b_storage b_shape b_strides)
        [0..<prod_list out_shape]
        (s, replicate (length a_shape) 0, replicate (length b_shape) 0))
     (for_each (zip_general_body fn out out_shape out_strides b_storage b_shape b_strides
                  a_storage a_shape a_strides)
        [0..<prod_list out_shape]
        (s, replicate (length b_shape) 0, replicate (length a_shape) 0))"
  proof (rule for_each_rel)
    show "R (s, replicate (length a_shape) 0, replicate (length b_shape) 0)
            (s, replicate (length b_shape) 0, replicate (length a_shape) 0)"
      by (simp add: R_def)
  next
    fix i and u v :: "'a store \<times> nat list \<times> nat list"
    assume "R u v"
    then obtain t ab bb where u: "u = (t, ab, bb)" and v: "v = (t, bb, ab)"
      and l: "length ab = length a_shape" "length bb = length b_shape"
      by (cases u, cases v) (auto simp: R_def)
    show "rel_sum (=) R
        (zip_general_body fn out out_shape out_strides a_storage a_shape a_strides
            b_storage b_shape b_strides i u)
        (zip_general_body fn out out_shape out_strides b_storage b_shape b_strides
            a_storage a_shape a_strides i v)"
      unfolding u v zip_general_body_def
      by (auto simp: fill_index_eq l Let_def storage_get_def storage_set_def R_def comm
          split: sum.splits)
  qed
  then show ?thesis
    unfolding zip_general_def
    by (cases rule: rel_sum.cases) (auto simp: R_def)
qed

lemma tensor_zip_commute:
  assumes "\<And>x y. fn x y = fn y x"
  shows "tensor_zip fn out out_shape out_strides a_storage a_shape a_strides
            b_storage b_shape b_strides s =
         tensor_zip fn out out_shape out_strides b_storage b_shape b_strides
            a_storage a_shape a_strides s"
  unfolding tensor_zip_def
  using zip_fast_commute[of fn, OF assms] zip_general_commute[of fn, OF assms]
  by auto

lemma SimpleOps_zip_commute:
  assumes "\<And>x y. fn x y = fn y x"
  shows "SimpleOps_zip fn a b s = SimpleOps_zip fn b a s"
proof (cases "shape a = shape b")
  case True
  then show ?thesis
    unfolding SimpleOps_zip_def
    by (simp add: tensor_zip_commute[of fn, OF assms] split: sum.splits prod.splits)
next
  case False
  then have "shape b \<noteq> shape a" by simp
  then show ?thesis
    unfolding SimpleOps_zip_def using False
    by (simp add: tensor_zip_commute[of fn, OF assms] shape_broadcast_commute[of "shape a"]
        split: sum.splits prod.splits)
qed

text \<open>
  C7. The zip with addition of the backend is commutative: for all tensors \<open>a\<close> and \<open>b\<close>
  and every store, \<^verbatim>\<open>add_zip(a, b)\<close> and \<^verbatim>\<open>add_zip(b, a)\<close> return the same tensor and the same
  store, hence the same value at every output position, or they raise the same error.
\<close>

theorem add_zip_commutative:
  "add_zip (SimpleBackend none_val) a b s = add_zip (SimpleBackend none_val) b a s"
  unfolding SimpleBackend_def TensorBackend_def SimpleOps_def
  by (simp add: SimpleOps_zip_commute operators_add_def add.commute)

section \<open>The reduce procedure\<close>

lemma py_index_less: "py_index n k = Inr d \<Longrightarrow> d < n"
  by (auto simp: py_index_def split: if_splits)

lemma reduce_step_loop:
  assumes "py_index (length out_index) reduce_dim = Inr d"
    and "\<And>k. k \<in> set ks \<Longrightarrow>
           index_to_position (out_index[d := k]) a_strides < length (cells s a_storage)"
  shows "for_each (reduce_step fn s a_storage a_strides out_index reduce_dim) ks res =
     Inr (fold (\<lambda>k r. Some (case r of
                  None \<Rightarrow> cells s a_storage ! index_to_position (out_index[d := k]) a_strides
                | Some r' \<Rightarrow> fn r' (cells s a_storage ! index_to_position (out_index[d := k]) a_strides)))
            ks res)"
  using assms(2)
proof (induction ks arbitrary: res)
  case Nil
  then show ?case by simp
next
  case (Cons k ks)
  then show ?case using assms(1)
    by (cases res) (simp_all add: reduce_step_def storage_get_def)
qed

lemma fold_some:
  "fold (\<lambda>k r. Some (case r of None \<Rightarrow> g k | Some r' \<Rightarrow> fn r' (g k))) ks (Some x) =
     Some (foldl fn x (map g ks))"
  by (induction ks arbitrary: x) auto

lemma fold_none:
  "(case fold (\<lambda>k r. Some (case r of None \<Rightarrow> g k | Some r' \<Rightarrow> fn r' (g k))) ks None of
      None \<Rightarrow> none_val | Some v \<Rightarrow> v) = left_fold none_val fn (map g ks)"
  by (cases ks) (simp_all add: left_fold_def fold_some)

lemma reduce_index_valid:
  assumes "list_all2 (<) ix (shp[d := 1])" and "k < shp ! d" and "d < length shp"
  shows "list_all2 (<) (ix[d := k]) shp"
proof -
  have len: "length ix = length shp" using list_all2_lengthD[OF assms(1)] by simp
  have "\<And>j. j < length shp \<Longrightarrow> ix[d := k] ! j < shp ! j"
  proof -
    fix j assume j: "j < length shp"
    have "ix ! j < shp[d := 1] ! j" using list_all2_nthD[OF assms(1)] j len by simp
    then show "ix[d := k] ! j < shp ! j" using assms(2,3) j len
      by (cases "j = d") simp_all
  qed
  then show ?thesis using len by (simp add: list_all2_conv_all_nth)
qed

lemma tensor_reduce_result:
  assumes d: "py_index (length a_shape) reduce_dim = Inr d"
    and os: "out_shape = a_shape[d := 1]"
    and ra: "in_range a_shape a_strides (length (cells s a_storage))"
    and ro: "in_range out_shape out_strides (length (cells s out))"
    and len: "length (cells s out) = prod_list out_shape"
    and ne: "a_storage \<noteq> out"
  shows "tensor_reduce none_val fn out out_shape out_strides a_storage a_shape a_strides
           reduce_dim s =
     Inr (s\<lparr>cells := (cells s)(out :=
               fold (\<lambda>i c. c[ordinal_position out_shape out_strides i :=
                      left_fold none_val fn (reduce_elems (cells s a_storage) a_strides
                        (row_major_index i out_shape) d (a_shape ! d))])
                 [0..<prod_list out_shape] (cells s out)),
            writes := writes s @
               map (\<lambda>i. (out, ordinal_position out_shape out_strides i,
                      left_fold none_val fn (reduce_elems (cells s a_storage) a_strides
                        (row_major_index i out_shape) d (a_shape ! d))))
                 [0..<prod_list out_shape]\<rparr>)"
proof -
  have dl: "d < length a_shape" using d by (rule py_index_less)
  have "for_each (reduce_body none_val fn out out_shape out_strides a_storage a_strides
                     reduce_dim (a_shape ! d)) [0..<prod_list out_shape] s =
     Inr (s\<lparr>cells := (cells s)(out :=
               fold (\<lambda>i c. c[ordinal_position out_shape out_strides i :=
                      left_fold none_val fn (reduce_elems (cells s a_storage) a_strides
                        (row_major_index i out_shape) d (a_shape ! d))])
                 [0..<prod_list out_shape] (cells s out)),
            writes := writes s @
               map (\<lambda>i. (out, ordinal_position out_shape out_strides i,
                      left_fold none_val fn (reduce_elems (cells s a_storage) a_strides
                        (row_major_index i out_shape) d (a_shape ! d))))
                 [0..<prod_list out_shape]\<rparr>)"
  proof (rule for_each_writes[where C = "cells s" and n = "length (cells s out)"])
    fix i and t :: "'a store"
    assume i: "i \<in> set [0..<prod_list out_shape]"
      and inv: "\<forall>r. r \<noteq> out \<longrightarrow> cells t r = cells s r"
    then have lt: "i < prod_list out_shape" by simp
    let ?ix = "row_major_index i out_shape"
    have v: "list_all2 (<) ?ix (a_shape[d := 1])"
      using lt os row_major_index_less by blast
    have ca: "cells t a_storage = cells s a_storage" using inv ne by simp
    have pd: "py_index (length ?ix) reduce_dim = Inr d" using d os by simp
    have rd: "\<And>k. k \<in> set [0..<a_shape ! d] \<Longrightarrow>
           index_to_position (?ix[d := k]) a_strides < length (cells t a_storage)"
      using reduce_index_valid[OF v _ dl] in_range_index[OF ra] by (simp add: ca)
    show "reduce_body none_val fn out out_shape out_strides a_storage a_strides
             reduce_dim (a_shape ! d) i t =
          storage_set t out (ordinal_position out_shape out_strides i)
            (left_fold none_val fn (reduce_elems (cells s a_storage) a_strides
                        (row_major_index i out_shape) d (a_shape ! d)))"
    proof -
      let ?g = "\<lambda>k. cells t a_storage ! index_to_position (?ix[d := k]) a_strides"
      have inner: "for_each (reduce_step fn t a_storage a_strides ?ix reduce_dim)
                     [0..<a_shape ! d] None =
            Inr (fold (\<lambda>k r. Some (case r of None \<Rightarrow> ?g k | Some r' \<Rightarrow> fn r' (?g k)))
                   [0..<a_shape ! d] None)"
        using pd rd by (rule reduce_step_loop)
      have val: "(case fold (\<lambda>k r. Some (case r of None \<Rightarrow> ?g k | Some r' \<Rightarrow> fn r' (?g k)))
                   [0..<a_shape ! d] None of None \<Rightarrow> none_val | Some v \<Rightarrow> v) =
            left_fold none_val fn (reduce_elems (cells s a_storage) a_strides ?ix d (a_shape ! d))"
        unfolding reduce_elems_def ca[symmetric] by (rule fold_none)
      show ?thesis
        using lt
        by (simp only: reduce_body_def to_index_def inner val ordinal_position_def
            if_True sum.case Let_def)
    qed
  next
    fix i assume "i \<in> set [0..<prod_list out_shape]"
    then show "ordinal_position out_shape out_strides i < length (cells s out)"
      using ro by (simp add: ordinal_position_def in_range_ordinal)
  qed simp_all
  then show ?thesis using d len by (simp add: tensor_reduce_def)
qed

section \<open>Layouts and the trace of assignments\<close>

lemma valid_layout_row_major: "valid_layout shp (row_major_strides shp) (prod_list shp)"
proof -
  have "map (ordinal_position shp (row_major_strides shp)) [0..<prod_list shp] = map (\<lambda>i. i) [0..<prod_list shp]"
    by (rule map_cong) (simp_all add: ordinal_position_def position_row_major_index)
  then have "distinct (map (ordinal_position shp (row_major_strides shp)) [0..<prod_list shp])"
    by simp
  moreover have "in_range shp (row_major_strides shp) (prod_list shp)"
    by (simp add: in_range_def list_all_iff position_row_major_index)
  ultimately show ?thesis by (simp add: valid_layout_def)
qed

lemma valid_layout_set:
  assumes "valid_layout shp strds len"
  shows "set (map (ordinal_position shp strds) [0..<prod_list shp]) = {..<len}"
proof -
  let ?ps = "map (ordinal_position shp strds) [0..<prod_list shp]"
  have n: "len = prod_list shp" and d: "distinct ?ps" and r: "in_range shp strds len"
    using assms by (auto simp: valid_layout_def)
  have sub: "set ?ps \<subseteq> {..<len}"
    using r n by (auto simp: ordinal_position_def in_range_ordinal)
  have "card (set ?ps) = len" using distinct_card[OF d] n by simp
  then show ?thesis using sub by (simp add: card_subset_eq)
qed

lemma times_written_map:
  "times_written out q (map (\<lambda>i. (out, p i, v i)) xs) = count_list (map p xs) q"
  by (induction xs) (auto simp: times_written_def)

lemma count_list_distinct:
  "distinct xs \<Longrightarrow> x \<in> set xs \<Longrightarrow> count_list xs x = 1"
  by (induction xs) auto

lemma written_once:
  assumes "valid_layout shp strds len" and "q < len"
  shows "times_written out q (map (\<lambda>i. (out, ordinal_position shp strds i, v i)) [0..<prod_list shp]) = 1"
proof -
  let ?ps = "map (ordinal_position shp strds) [0..<prod_list shp]"
  have "q \<in> set ?ps" using valid_layout_set[OF assms(1)] assms(2) by simp
  moreover have "distinct ?ps" using assms(1) by (simp add: valid_layout_def)
  ultimately have "count_list ?ps q = 1" by (simp add: count_list_distinct)
  then show ?thesis by (simp add: times_written_map)
qed

lemma zip_general_unbuffered:
  "zip_general fn out out_shape out_strides a_storage a_shape a_strides
       b_storage b_shape b_strides s =
   for_each (\<lambda>i t.
       case zip_general_body fn out out_shape out_strides a_storage a_shape a_strides
              b_storage b_shape b_strides i
              (t, replicate (length a_shape) 0, replicate (length b_shape) 0)
       of Inl e \<Rightarrow> Inl e | Inr (t', a_index, b_index) \<Rightarrow> Inr t')
     [0..<prod_list out_shape] s"
proof -
  define R :: "'a store \<times> nat list \<times> nat list \<Rightarrow> 'a store \<Rightarrow> bool" where
    "R = (\<lambda>(t, ab, bb) t'. t' = t \<and> length ab = length a_shape \<and> length bb = length b_shape)"
  have "rel_sum (=) R
     (for_each (zip_general_body fn out out_shape out_strides a_storage a_shape a_strides
                  b_storage b_shape b_strides)
        [0..<prod_list out_shape]
        (s, replicate (length a_shape) 0, replicate (length b_shape) 0))
     (for_each (\<lambda>i t.
       case zip_general_body fn out out_shape out_strides a_storage a_shape a_strides
              b_storage b_shape b_strides i
              (t, replicate (length a_shape) 0, replicate (length b_shape) 0)
       of Inl e \<Rightarrow> Inl e | Inr (t', a_index, b_index) \<Rightarrow> Inr t')
     [0..<prod_list out_shape] s)"
  proof (rule for_each_rel)
    show "R (s, replicate (length a_shape) 0, replicate (length b_shape) 0) s"
      by (simp add: R_def)
  next
    fix i and u :: "'a store \<times> nat list \<times> nat list" and t :: "'a store"
    assume "R u t"
    then obtain ab bb where u: "u = (t, ab, bb)"
      and l: "length ab = length a_shape" "length bb = length b_shape"
      by (cases u) (auto simp: R_def)
    show "rel_sum (=) R
        (zip_general_body fn out out_shape out_strides a_storage a_shape a_strides
            b_storage b_shape b_strides i u)
        (case zip_general_body fn out out_shape out_strides a_storage a_shape a_strides
              b_storage b_shape b_strides i
              (t, replicate (length a_shape) 0, replicate (length b_shape) 0)
         of Inl e \<Rightarrow> Inl e | Inr (t', a_index, b_index) \<Rightarrow> Inr t')"
      unfolding u zip_general_body_def
      by (auto simp: fill_index_eq l Let_def storage_get_def storage_set_def R_def
          split: sum.splits)
  qed
  then show ?thesis
    unfolding zip_general_def
    by (cases rule: rel_sum.cases) (auto simp: R_def)
qed

lemma tensor_zip_general:
  "tensor_zip fn out out_shape out_strides a_storage a_shape a_strides
       b_storage b_shape b_strides s =
   zip_general fn out out_shape out_strides a_storage a_shape a_strides
       b_storage b_shape b_strides s"
  by (simp add: tensor_zip_def zip_fast_general)

lemma map_nth_map2:
  "length xs = length ys \<Longrightarrow> map (\<lambda>i. f (xs ! i) (ys ! i)) [0..<length xs] = map2 f xs ys"
  by (rule nth_equalityI) simp_all

lemma fill_index_broadcast:
  assumes "length shp = length out_shape" and "broadcasts_to shp out_shape"
    and "list_all2 (<) ix out_shape" and "length buf = length shp"
  shows "fill_index ix shp buf =
           Inr (map2 (\<lambda>d b. if d = 1 then 0 else b) shp (drop (length out_shape - length shp) ix))"
proof -
  have len: "length ix = length shp" using list_all2_lengthD[OF assms(3)] assms(1) by simp
  have "list_all (\<lambda>i. shp ! i = 1 \<or> i < length ix) [0..<length shp]"
    using len by (simp add: list_all_iff)
  moreover have "map (\<lambda>i. if shp ! i = 1 then 0 else ix ! i) [0..<length shp] =
      map2 (\<lambda>d b. if d = 1 then 0 else b) shp ix"
    using map_nth_map2[of shp ix "\<lambda>d b. if d = 1 then 0 else b"] len by simp
  ultimately show ?thesis using assms(1,4) by (simp add: fill_index_eq)
qed

lemma tensor_zip_result:
  assumes la: "length a_shape = length out_shape" and lb: "length b_shape = length out_shape"
    and bca: "broadcasts_to a_shape out_shape" and bcb: "broadcasts_to b_shape out_shape"
    and ro: "in_range out_shape out_strides (length (cells s out))"
    and ra: "in_range a_shape a_strides (length (cells s a_storage))"
    and rb: "in_range b_shape b_strides (length (cells s b_storage))"
    and nea: "a_storage \<noteq> out" and neb: "b_storage \<noteq> out"
  shows "tensor_zip fn out out_shape out_strides a_storage a_shape a_strides
           b_storage b_shape b_strides s =
     Inr (s\<lparr>cells := (cells s)(out :=
               fold (\<lambda>i c. c[ordinal_position out_shape out_strides i :=
                      fn (cells s a_storage ! broadcast_position out_shape a_shape a_strides i)
                         (cells s b_storage ! broadcast_position out_shape b_shape b_strides i)])
                 [0..<prod_list out_shape] (cells s out)),
            writes := writes s @
               map (\<lambda>i. (out, ordinal_position out_shape out_strides i,
                      fn (cells s a_storage ! broadcast_position out_shape a_shape a_strides i)
                         (cells s b_storage ! broadcast_position out_shape b_shape b_strides i)))
                 [0..<prod_list out_shape]\<rparr>)"
  unfolding tensor_zip_general zip_general_unbuffered
proof (rule for_each_writes[where C = "cells s" and n = "length (cells s out)"])
  fix i and t :: "'a store"
  assume i: "i \<in> set [0..<prod_list out_shape]"
    and inv: "\<forall>r. r \<noteq> out \<longrightarrow> cells t r = cells s r"
  then have lt: "i < prod_list out_shape" by simp
  let ?ix = "row_major_index i out_shape"
  have v: "list_all2 (<) ?ix out_shape" using lt by (rule row_major_index_less)
  have fa: "fill_index ?ix a_shape (replicate (length a_shape) 0) =
      Inr (map2 (\<lambda>d b. if d = 1 then 0 else b) a_shape (drop (length out_shape - length a_shape) ?ix))"
    using la bca v by (rule fill_index_broadcast) simp
  have fb: "fill_index ?ix b_shape (replicate (length b_shape) 0) =
      Inr (map2 (\<lambda>d b. if d = 1 then 0 else b) b_shape (drop (length out_shape - length b_shape) ?ix))"
    using lb bcb v by (rule fill_index_broadcast) simp
  have pa: "broadcast_position out_shape a_shape a_strides i < length (cells s a_storage)"
    unfolding broadcast_position_def using in_range_index[OF ra broadcast_index_valid[OF bca v]] .
  have pb: "broadcast_position out_shape b_shape b_strides i < length (cells s b_storage)"
    unfolding broadcast_position_def using in_range_index[OF rb broadcast_index_valid[OF bcb v]] .
  have ca: "cells t a_storage = cells s a_storage" using inv nea by simp
  have cb: "cells t b_storage = cells s b_storage" using inv neb by simp
  show "(case zip_general_body fn out out_shape out_strides a_storage a_shape a_strides
              b_storage b_shape b_strides i
              (t, replicate (length a_shape) 0, replicate (length b_shape) 0)
       of Inl e \<Rightarrow> Inl e | Inr (t', a_index, b_index) \<Rightarrow> Inr t') =
      storage_set t out (ordinal_position out_shape out_strides i)
        (fn (cells s a_storage ! broadcast_position out_shape a_shape a_strides i)
            (cells s b_storage ! broadcast_position out_shape b_shape b_strides i))"
    using lt pa pb
    by (simp add: zip_general_body_def to_index_def fa fb storage_get_def ca cb Let_def
        ordinal_position_def broadcast_position_def split: sum.splits)
next
  fix i assume "i \<in> set [0..<prod_list out_shape]"
  then show "ordinal_position out_shape out_strides i < length (cells s out)"
    using ro by (simp add: ordinal_position_def in_range_ordinal)
qed simp_all

lemma written_once_result:
  assumes "valid_layout shp strds (length (cells s out))"
    and "res = Inr (s\<lparr>cells := (cells s)(out := c),
            writes := writes s @ map (\<lambda>i. (out, ordinal_position shp strds i, v i)) [0..<prod_list shp]\<rparr>)"
  shows "\<exists>s'. res = Inr s'
     \<and> (\<forall>q<length (cells s out).
           times_written out q (drop (length (writes s)) (writes s')) = 1)
     \<and> (\<forall>r. r \<noteq> out \<longrightarrow> cells s' r = cells s r)"
  using assms(2) written_once[OF assms(1), of _ out v] by simp

text \<open>
  C8. An invocation of \<^verbatim>\<open>_map\<close>, \<^verbatim>\<open>_zip\<close> or \<^verbatim>\<open>_reduce\<close> that meets its preconditions
  returns; among the assignments it executed, every position of the output storage occurs
  exactly once; and every storage other than the output storage, so every input storage,
  has the contents it had before.
\<close>

theorem output_written_exactly_once:
  assumes "valid_call c s"
  shows "\<exists>s'. run c s = Inr s'
     \<and> (\<forall>q<length (cells s (output_of c)).
           times_written (output_of c) q (drop (length (writes s)) (writes s')) = 1)
     \<and> (\<forall>r. r \<noteq> output_of c \<longrightarrow> cells s' r = cells s r)"
proof (cases c)
  case (Map fn out out_shape out_strides in_storage in_shape in_strides)
  then have v: "valid_layout out_shape out_strides (length (cells s out))"
    and r: "in_range out_shape out_strides (length (cells s out))"
    using assms by (auto simp: valid_layout_def)
  show ?thesis
    unfolding Map run.simps output_of.simps
    using v
  proof (rule written_once_result)
    show "tensor_map fn out out_shape out_strides in_storage in_shape in_strides s =
      Inr (s\<lparr>cells := (cells s)(out := fold (\<lambda>i c. c[ordinal_position out_shape out_strides i :=
                               fn (cells s in_storage ! broadcast_position out_shape in_shape in_strides i)])
                 [0..<prod_list out_shape] (cells s out)),
            writes := writes s @
               map (\<lambda>i. (out, ordinal_position out_shape out_strides i,
                          fn (cells s in_storage ! broadcast_position out_shape in_shape in_strides i)))
                 [0..<prod_list out_shape]\<rparr>)"
      using assms r unfolding Map by (intro tensor_map_result) simp_all
  qed
next
  case (Zip fn out out_shape out_strides a_storage a_shape a_strides b_storage b_shape b_strides)
  then have v: "valid_layout out_shape out_strides (length (cells s out))"
    and r: "in_range out_shape out_strides (length (cells s out))"
    using assms by (auto simp: valid_layout_def)
  show ?thesis
    unfolding Zip run.simps output_of.simps
    using v
  proof (rule written_once_result)
    show "tensor_zip fn out out_shape out_strides a_storage a_shape a_strides
           b_storage b_shape b_strides s =
     Inr (s\<lparr>cells := (cells s)(out :=
               fold (\<lambda>i c. c[ordinal_position out_shape out_strides i :=
                      fn (cells s a_storage ! broadcast_position out_shape a_shape a_strides i)
                         (cells s b_storage ! broadcast_position out_shape b_shape b_strides i)])
                 [0..<prod_list out_shape] (cells s out)),
            writes := writes s @
               map (\<lambda>i. (out, ordinal_position out_shape out_strides i,
                      fn (cells s a_storage ! broadcast_position out_shape a_shape a_strides i)
                         (cells s b_storage ! broadcast_position out_shape b_shape b_strides i)))
                 [0..<prod_list out_shape]\<rparr>)"
      using assms r unfolding Zip by (intro tensor_zip_result) simp_all
  qed
next
  case (Reduce none_val fn out out_shape out_strides a_storage a_shape a_strides reduce_dim)
  then have v: "valid_layout out_shape out_strides (length (cells s out))"
    and r: "in_range out_shape out_strides (length (cells s out))"
    and l: "length (cells s out) = prod_list out_shape"
    using assms by (auto simp: valid_layout_def)
  from assms obtain d where d: "py_index (length a_shape) reduce_dim = Inr d"
    and os: "out_shape = a_shape[d := 1]"
    unfolding Reduce by (auto split: sum.splits)
  show ?thesis
    unfolding Reduce run.simps output_of.simps
    using v
  proof (rule written_once_result)
    show "tensor_reduce none_val fn out out_shape out_strides a_storage a_shape a_strides
           reduce_dim s =
     Inr (s\<lparr>cells := (cells s)(out :=
               fold (\<lambda>i c. c[ordinal_position out_shape out_strides i :=
                      left_fold none_val fn (reduce_elems (cells s a_storage) a_strides
                        (row_major_index i out_shape) d (a_shape ! d))])
                 [0..<prod_list out_shape] (cells s out)),
            writes := writes s @
               map (\<lambda>i. (out, ordinal_position out_shape out_strides i,
                      left_fold none_val fn (reduce_elems (cells s a_storage) a_strides
                        (row_major_index i out_shape) d (a_shape ! d))))
                 [0..<prod_list out_shape]\<rparr>)"
      using d os _ r l
    proof (rule tensor_reduce_result)
      show "in_range a_shape a_strides (length (cells s a_storage))"
        using assms unfolding Reduce by simp
      show "a_storage \<noteq> out" using assms unfolding Reduce by simp
    qed
  qed
qed

text \<open>
  The preconditions of C8 hold for a map, a zip and a reduce on \<open>store0\<close>; each of them
  writes the position looked at once and leaves its input storage as it was.
\<close>

theorem output_written_exactly_once_witness:
  "valid_call (Map uminus 0 [2, 2] [2, 1] 1 [2] [1]) store0
   \<and> (\<exists>s'. tensor_map uminus 0 [2, 2] [2, 1] 1 [2] [1] store0 = Inr s'
         \<and> times_written 0 2 (writes s') = 1 \<and> cells s' 1 = [5, 7])
   \<and> valid_call (Zip (+) 0 [2, 2] [2, 1] 1 [1, 2] [2, 1] 1 [2, 1] [1, 1]) store0
   \<and> (\<exists>s'. tensor_zip (+) 0 [2, 2] [2, 1] 1 [1, 2] [2, 1] 1 [2, 1] [1, 1] store0 = Inr s'
         \<and> times_written 0 2 (writes s') = 1 \<and> cells s' 1 = [5, 7])
   \<and> valid_call (Reduce 0 (+) 1 [2, 1] [1, 1] 0 [2, 2] [2, 1] 1) store0
   \<and> (\<exists>s'. tensor_reduce 0 (+) 1 [2, 1] [1, 1] 0 [2, 2] [2, 1] 1 store0 = Inr s'
         \<and> times_written 1 1 (writes s') = 1 \<and> cells s' 0 = [0, 0, 0, 0])"
proof -
  have m: "valid_call (Map uminus 0 [2, 2] [2, 1] 1 [2] [1]) store0" by code_simp
  have z: "valid_call (Zip (+) 0 [2, 2] [2, 1] 1 [1, 2] [2, 1] 1 [2, 1] [1, 1]) store0"
    by code_simp
  have r: "valid_call (Reduce 0 (+) 1 [2, 1] [1, 1] 0 [2, 2] [2, 1] 1) store0" by code_simp
  have l: "length (cells store0 0) = 4" "length (cells store0 1) = 2" "writes store0 = []"
    "cells store0 0 = [0, 0, 0, 0]" "cells store0 1 = [5, 7]"
    by (simp_all add: store0_def)
  have "\<exists>s'. tensor_map uminus 0 [2, 2] [2, 1] 1 [2] [1] store0 = Inr s'
         \<and> times_written 0 2 (writes s') = 1 \<and> cells s' 1 = [5, 7]"
    using output_written_exactly_once[OF m] l by fastforce
  moreover have "\<exists>s'. tensor_zip (+) 0 [2, 2] [2, 1] 1 [1, 2] [2, 1] 1 [2, 1] [1, 1] store0 = Inr s'
         \<and> times_written 0 2 (writes s') = 1 \<and> cells s' 1 = [5, 7]"
    using output_written_exactly_once[OF z] l by fastforce
  moreover have "\<exists>s'. tensor_reduce 0 (+) 1 [2, 1] [1, 1] 0 [2, 2] [2, 1] 1 store0 = Inr s'
         \<and> times_written 1 1 (writes s') = 1 \<and> cells s' 0 = [0, 0, 0, 0]"
    using output_written_exactly_once[OF r] l by fastforce
  ultimately show ?thesis using m z r by blast
qed

text \<open>
  C2. For a valid reduced dimension (Python subscript \<open>reduce_dim\<close>, dimension \<open>d\<close>), an
  output shape equal to the input shape with dimension \<open>d\<close> set to 1, an input held by its
  storage, output strides that are a layout of the output storage, and an input storage
  that is not the output storage, \<^verbatim>\<open>_reduce\<close> returns, and the value at every output
  position is the left fold of \<open>fn\<close> over the input elements along dimension \<open>d\<close> taken by
  increasing \<open>reduce_pos = 0, 1, ..., a_shape[d] - 1\<close>. Nothing is assumed of \<open>fn\<close>.
\<close>

theorem tensor_reduce_left_fold:
  assumes "py_index (length a_shape) reduce_dim = Inr d"
    and "out_shape = a_shape[d := 1]"
    and "in_range a_shape a_strides (length (cells s a_storage))"
    and "valid_layout out_shape out_strides (length (cells s out))"
    and "a_storage \<noteq> out"
  shows "\<exists>s'. tensor_reduce none_val fn out out_shape out_strides a_storage a_shape a_strides
                reduce_dim s = Inr s'
     \<and> (\<forall>i<prod_list out_shape. \<exists>out_index.
           to_index i out_shape = Inr out_index
           \<and> cells s' out ! index_to_position out_index out_strides =
               left_fold none_val fn
                 (map (\<lambda>reduce_pos. cells s a_storage !
                         index_to_position (out_index[d := reduce_pos]) a_strides)
                    [0..<a_shape ! d]))"
proof -
  let ?p = "ordinal_position out_shape out_strides"
  let ?v = "\<lambda>i. left_fold none_val fn (reduce_elems (cells s a_storage) a_strides
                        (row_major_index i out_shape) d (a_shape ! d))"
  let ?c = "fold (\<lambda>i c. c[?p i := ?v i]) [0..<prod_list out_shape] (cells s out)"
  let ?s' = "s\<lparr>cells := (cells s)(out := ?c),
               writes := writes s @ map (\<lambda>i. (out, ?p i, ?v i)) [0..<prod_list out_shape]\<rparr>"
  have r: "in_range out_shape out_strides (length (cells s out))"
    and l: "length (cells s out) = prod_list out_shape"
    and di: "distinct (map ?p [0..<prod_list out_shape])"
    using assms(4) by (auto simp: valid_layout_def)
  have res: "tensor_reduce none_val fn out out_shape out_strides a_storage a_shape a_strides
                reduce_dim s = Inr ?s'"
    using assms(1,2,3) r l assms(5) by (rule tensor_reduce_result)
  have "\<And>i. i < prod_list out_shape \<Longrightarrow> ?c ! ?p i = ?v i"
  proof -
    fix i assume i: "i < prod_list out_shape"
    then have "?p i < length (cells s out)" using r by (simp add: ordinal_position_def in_range_ordinal)
    then show "?c ! ?p i = ?v i" using di i by (intro fold_update_nth) simp_all
  qed
  then have "\<forall>i<prod_list out_shape. \<exists>out_index.
           to_index i out_shape = Inr out_index
           \<and> cells ?s' out ! index_to_position out_index out_strides =
               left_fold none_val fn
                 (map (\<lambda>reduce_pos. cells s a_storage !
                         index_to_position (out_index[d := reduce_pos]) a_strides)
                    [0..<a_shape ! d])"
    by (simp add: to_index_def ordinal_position_def reduce_elems_def)
  then show ?thesis using res by blast
qed

text \<open>
  The hypotheses of C2 hold for the 2 by 3 tensor \<open>[[10, 3, 2], [1, 5, 20]]\<close> reduced along
  its last dimension (\<open>reduce_dim = -1\<close>) with subtraction, which is neither commutative nor
  associative: the results are \<open>(10 - 3) - 2 = 5\<close> and \<open>(1 - 5) - 20 = -24\<close>.
\<close>

theorem tensor_reduce_left_fold_witness:
  "py_index (length [2, 3 :: nat]) (- 1) = Inr 1
   \<and> in_range [2, 3] [3, 1] (length (cells store1 0))
   \<and> valid_layout [2, 1] [1, 1] (length (cells store1 1))
   \<and> (\<exists>s'. tensor_reduce 0 (-) 1 [2, 1] [1, 1] 0 [2, 3] [3, 1] (- 1) store1 = Inr s'
         \<and> cells s' 1 ! 0 = 5 \<and> cells s' 1 ! 1 = - 24)"
proof -
  have h1: "py_index (length [2, 3 :: nat]) (- 1) = Inr 1" by (simp add: py_index_def)
  have h2: "[2, 1] = [2, 3 :: nat][1 := 1]" by simp
  have h3: "in_range [2, 3] [3, 1] (length (cells store1 0))" by code_simp
  have h4: "valid_layout [2, 1] [1, 1] (length (cells store1 1))" by code_simp
  have h5: "(0::nat) \<noteq> 1" by simp
  obtain s' where r: "tensor_reduce 0 (-) 1 [2, 1] [1, 1] 0 [2, 3] [3, 1] (- 1) store1 = Inr s'"
    and w: "\<forall>i<prod_list [2, 1]. \<exists>out_index.
           to_index i [2, 1] = Inr out_index
           \<and> cells s' 1 ! index_to_position out_index [1, 1] =
               left_fold 0 (-)
                 (map (\<lambda>reduce_pos. cells store1 0 !
                         index_to_position (out_index[1 := reduce_pos]) [3, 1])
                    [0..<[2, 3] ! 1])"
    using tensor_reduce_left_fold[OF h1 h2 h3 h4 h5, of 0 "(-)"] by blast
  have t0: "to_index 0 [2, 1] = Inr [0, 0]" and t1: "to_index 1 [2, 1] = Inr [1, 0]"
    by code_simp+
  have v0: "left_fold 0 (-) (map (\<lambda>reduce_pos. cells store1 0 !
               index_to_position ([0, 0][1 := reduce_pos]) [3, 1]) [0..<[2, 3] ! 1]) = (5::real)"
    by code_simp
  have v1: "left_fold 0 (-) (map (\<lambda>reduce_pos. cells store1 0 !
               index_to_position ([1, 0][1 := reduce_pos]) [3, 1]) [0..<[2, 3] ! 1]) = (- 24::real)"
    by code_simp
  have p0: "index_to_position [0, 0] [1, 1] = 0" and p1: "index_to_position [1, 0] [1, 1] = 1"
    by (simp_all add: index_to_position_def)
  have "(0::nat) < prod_list [2, 1]" by simp
  with w obtain oi where "to_index 0 [2, 1] = Inr oi"
    and e: "cells s' 1 ! index_to_position oi [1, 1] =
               left_fold 0 (-) (map (\<lambda>reduce_pos. cells store1 0 !
                         index_to_position (oi[1 := reduce_pos]) [3, 1]) [0..<[2, 3] ! 1])"
    by blast
  then have "oi = [0, 0]" using t0 by simp
  then have c0: "cells s' 1 ! 0 = 5" using e v0 p0 by simp
  have "(1::nat) < prod_list [2, 1]" by simp
  with w obtain oj where "to_index 1 [2, 1] = Inr oj"
    and e: "cells s' 1 ! index_to_position oj [1, 1] =
               left_fold 0 (-) (map (\<lambda>reduce_pos. cells store1 0 !
                         index_to_position (oj[1 := reduce_pos]) [3, 1]) [0..<[2, 3] ! 1])"
    by blast
  then have "oj = [1, 0]" using t1 by simp
  then have c1: "cells s' 1 ! 1 = - 24" using e v1 p1 by simp
  show ?thesis using h1 h3 h4 r c0 c1 by blast
qed

section \<open>The operations of \<^verbatim>\<open>SimpleOps\<close>\<close>

lemma fold_update_row_major:
  assumes "length c = prod_list shp"
  shows "fold (\<lambda>i c. c[ordinal_position shp (row_major_strides shp) i := v i]) [0..<prod_list shp] c
         = map v [0..<prod_list shp]"
proof (rule nth_equalityI)
  show "length (fold (\<lambda>i c. c[ordinal_position shp (row_major_strides shp) i := v i])
           [0..<prod_list shp] c) = length (map v [0..<prod_list shp])"
    using assms by simp
next
  fix i
  assume "i < length (fold (\<lambda>i c. c[ordinal_position shp (row_major_strides shp) i := v i])
           [0..<prod_list shp] c)"
  then have i: "i < prod_list shp" using assms by simp
  have p: "ordinal_position shp (row_major_strides shp) i = i"
    using i by (simp add: ordinal_position_def position_row_major_index)
  have d: "distinct (map (ordinal_position shp (row_major_strides shp)) [0..<prod_list shp])"
    using valid_layout_row_major[of shp] by (simp add: valid_layout_def)
  have "fold (\<lambda>i c. c[ordinal_position shp (row_major_strides shp) i := v i]) [0..<prod_list shp] c
          ! ordinal_position shp (row_major_strides shp) i = v i"
    using d by (rule fold_update_nth) (use i assms p in simp_all)
  then show "fold (\<lambda>i c. c[ordinal_position shp (row_major_strides shp) i := v i])
           [0..<prod_list shp] c ! i = map v [0..<prod_list shp] ! i"
    using p i by simp
qed

lemma map_row_major_writes:
  "map (\<lambda>i. (out, ordinal_position shp (row_major_strides shp) i, v i)) [0..<prod_list shp]
   = map (\<lambda>i. (out, i, v i)) [0..<prod_list shp]"
  by (rule map_cong) (simp_all add: ordinal_position_def position_row_major_index)

lemma in_range_row_major: "in_range shp (row_major_strides shp) (prod_list shp)"
  using valid_layout_row_major[of shp] by (simp add: valid_layout_def)

lemma SimpleOps_reduce_result:
  assumes ra: "in_range (shape a) (strides a) (length (cells s (storage a)))"
    and al: "storage a < next_ref s"
    and d: "py_index (length (shape a)) reduce_dim = Inr d"
  shows "SimpleOps_reduce none_val fn start a reduce_dim s =
     Inr (\<lparr>storage = next_ref s, shape = (shape a)[d := 1],
            strides = row_major_strides ((shape a)[d := 1])\<rparr>,
          s\<lparr>cells := (cells s)(next_ref s :=
                map (reduce_value none_val fn s a d) [0..<prod_list ((shape a)[d := 1])]),
            next_ref := Suc (next_ref s),
            writes := writes s @
                map (\<lambda>i. (next_ref s, i, reduce_value none_val fn s a d i))
                  [0..<prod_list ((shape a)[d := 1])]\<rparr>)"
proof -
  let ?os = "(shape a)[d := 1]"
  let ?n = "prod_list ?os"
  let ?out = "next_ref s"
  let ?s2 = "s\<lparr>cells := (cells s)(?out := replicate ?n start), next_ref := Suc ?out\<rparr>"
  let ?v = "reduce_value none_val fn s a d"
  have ne: "storage a \<noteq> ?out" using al by simp
  have ca: "cells ?s2 (storage a) = cells s (storage a)" using ne by simp
  have "tensor_reduce none_val fn ?out ?os (row_major_strides ?os)
           (storage a) (shape a) (strides a) reduce_dim ?s2 =
     Inr (?s2\<lparr>cells := (cells ?s2)(?out :=
               fold (\<lambda>i c. c[ordinal_position ?os (row_major_strides ?os) i :=
                      left_fold none_val fn (reduce_elems (cells ?s2 (storage a)) (strides a)
                        (row_major_index i ?os) d (shape a ! d))])
                 [0..<?n] (cells ?s2 ?out)),
            writes := writes ?s2 @
               map (\<lambda>i. (?out, ordinal_position ?os (row_major_strides ?os) i,
                      left_fold none_val fn (reduce_elems (cells ?s2 (storage a)) (strides a)
                        (row_major_index i ?os) d (shape a ! d))))
                 [0..<?n]\<rparr>)"
    using d
  proof (rule tensor_reduce_result)
    show "?os = (shape a)[d := 1]" by simp
    show "in_range (shape a) (strides a) (length (cells ?s2 (storage a)))"
      using ra ca by simp
    show "in_range ?os (row_major_strides ?os) (length (cells ?s2 ?out))"
      by (simp add: in_range_row_major)
    show "length (cells ?s2 ?out) = ?n" by simp
    show "storage a \<noteq> ?out" by (rule ne)
  qed
  also have "?s2\<lparr>cells := (cells ?s2)(?out :=
               fold (\<lambda>i c. c[ordinal_position ?os (row_major_strides ?os) i :=
                      left_fold none_val fn (reduce_elems (cells ?s2 (storage a)) (strides a)
                        (row_major_index i ?os) d (shape a ! d))])
                 [0..<?n] (cells ?s2 ?out)),
            writes := writes ?s2 @
               map (\<lambda>i. (?out, ordinal_position ?os (row_major_strides ?os) i,
                      left_fold none_val fn (reduce_elems (cells ?s2 (storage a)) (strides a)
                        (row_major_index i ?os) d (shape a ! d))))
                 [0..<?n]\<rparr>
      = s\<lparr>cells := (cells s)(?out := map ?v [0..<?n]), next_ref := Suc ?out,
            writes := writes s @ map (\<lambda>i. (?out, i, ?v i)) [0..<?n]\<rparr>"
    unfolding ca
    by (rule store.equality)
      (simp_all add: fun_eq_iff fold_update_row_major map_row_major_writes
        reduce_value_def[abs_def])
  finally have t: "tensor_reduce none_val fn ?out ?os (row_major_strides ?os)
           (storage a) (shape a) (strides a) reduce_dim ?s2 =
      Inr (s\<lparr>cells := (cells s)(?out := map ?v [0..<?n]), next_ref := Suc ?out,
            writes := writes s @ map (\<lambda>i. (?out, i, ?v i)) [0..<?n]\<rparr>)" .
  let ?s1 = "s\<lparr>cells := (cells s)(?out := replicate ?n 0), next_ref := Suc ?out\<rparr>"
  have z: "zeros s ?os =
      (\<lparr>storage = ?out, shape = ?os, strides = row_major_strides ?os\<rparr>, ?s1)"
    by (simp add: zeros_def)
  have s2: "?s1\<lparr>cells := (cells ?s1)(?out := map (\<lambda>_. start) (cells ?s1 ?out))\<rparr> = ?s2"
    by (rule store.equality) (simp_all add: fun_eq_iff)
  show ?thesis
    apply (simp only: SimpleOps_reduce_def d sum.case Let_def z prod.case tensor.select_convs)
    apply (simp only: s2 t sum.case)
    done
qed

text \<open>
  C4. For a tensor held by an allocated storage and a valid dimension (Python subscript
  \<open>reduce_dim\<close>, dimension \<open>d\<close>), the function made by \<^verbatim>\<open>SimpleOps.reduce(fn, start)\<close>
  returns a tensor whose shape is the shape of the input with the entry at \<open>d\<close> replaced
  by 1: the same number of dimensions, 1 at \<open>d\<close>, and every other entry unchanged.
\<close>

theorem SimpleOps_reduce_shape:
  assumes "in_range (shape a) (strides a) (length (cells s (storage a)))"
    and "storage a < next_ref s"
    and "py_index (length (shape a)) reduce_dim = Inr d"
  shows "\<exists>out s'. SimpleOps_reduce none_val fn start a reduce_dim s = Inr (out, s')
     \<and> shape out = (shape a)[d := 1]
     \<and> length (shape out) = length (shape a)
     \<and> shape out ! d = 1
     \<and> (\<forall>j<length (shape a). j \<noteq> d \<longrightarrow> shape out ! j = shape a ! j)"
  using SimpleOps_reduce_result[OF assms, of none_val fn start] py_index_less[OF assms(3)]
  by simp

text \<open>
  The hypotheses of C4 hold for the 2 by 3 tensor of \<open>store1\<close> and dimension 0; the result
  has shape \<open>(1, 3)\<close>.
\<close>

theorem SimpleOps_reduce_shape_witness:
  "in_range [2, 3] [3, 1] (length (cells store1 0))
   \<and> py_index (length [2, 3 :: nat]) 0 = Inr 0
   \<and> (\<exists>out s'. SimpleOps_reduce 0 (+) 0 \<lparr>storage = 0, shape = [2, 3], strides = [3, 1]\<rparr> 0 store1
          = Inr (out, s') \<and> shape out = [1, 3])"
proof -
  let ?a = "\<lparr>storage = 0, shape = [2, 3], strides = [3, 1]\<rparr>"
  have h1: "in_range (shape ?a) (strides ?a) (length (cells store1 (storage ?a)))" by code_simp
  have h2: "storage ?a < next_ref store1" by (simp add: store1_def)
  have h3: "py_index (length (shape ?a)) 0 = Inr 0" by (simp add: py_index_def)
  show ?thesis
    using SimpleOps_reduce_shape[OF h1 h2 h3, of 0 "(+)" 0] h1 h3 by simp blast
qed

text \<open>
  C10. For a tensor held by an allocated storage, a valid dimension \<open>d\<close> and at least one
  element along \<open>d\<close>, the function made by \<^verbatim>\<open>SimpleOps.reduce(fn, start)\<close> returns, the
  elements along \<open>d\<close> at every output index form a non-empty list \<open>x # rest\<close>, and the
  output element at that index is \<open>foldl fn x rest\<close>: the first element is the initial
  accumulator. The start value does not occur in the result: every other start value
  gives the same tensor and the same store.
\<close>

theorem SimpleOps_reduce_ignores_start:
  assumes "in_range (shape a) (strides a) (length (cells s (storage a)))"
    and "storage a < next_ref s"
    and "py_index (length (shape a)) reduce_dim = Inr d"
    and "1 \<le> shape a ! d"
  shows "\<exists>out s'. SimpleOps_reduce none_val fn start a reduce_dim s = Inr (out, s')
     \<and> (\<forall>i<prod_list (shape out). \<exists>out_index x rest.
           to_index i (shape out) = Inr out_index
           \<and> map (\<lambda>reduce_pos. cells s (storage a) !
                    index_to_position (out_index[d := reduce_pos]) (strides a))
                [0..<shape a ! d] = x # rest
           \<and> element_at s' out out_index = Inr (foldl fn x rest))
     \<and> (\<forall>start'. SimpleOps_reduce none_val fn start' a reduce_dim s = Inr (out, s'))"
proof -
  let ?os = "(shape a)[d := 1]"
  let ?n = "prod_list ?os"
  let ?v = "reduce_value none_val fn s a d"
  let ?out = "\<lparr>storage = next_ref s, shape = ?os, strides = row_major_strides ?os\<rparr>"
  define s' where "s' = s\<lparr>cells := (cells s)(next_ref s := map ?v [0..<?n]),
            next_ref := Suc (next_ref s),
            writes := writes s @ map (\<lambda>i. (next_ref s, i, ?v i)) [0..<?n]\<rparr>"
  have cs: "cells s' (next_ref s) = map ?v [0..<?n]" by (simp add: s'_def)
  have res: "\<And>st. SimpleOps_reduce none_val fn st a reduce_dim s = Inr (?out, s')"
    unfolding s'_def using assms(1,2,3) by (rule SimpleOps_reduce_result)
  have "\<exists>out_index x rest.
           to_index i ?os = Inr out_index
           \<and> map (\<lambda>reduce_pos. cells s (storage a) !
                    index_to_position (out_index[d := reduce_pos]) (strides a))
                [0..<shape a ! d] = x # rest
           \<and> element_at s' ?out out_index = Inr (foldl fn x rest)" if i: "i < ?n" for i
  proof -
    let ?ix = "row_major_index i ?os"
    let ?xs = "reduce_elems (cells s (storage a)) (strides a) ?ix d (shape a ! d)"
    have "length ?xs = shape a ! d" by (simp add: reduce_elems_def)
    then obtain x rest where xs: "?xs = x # rest" using assms(4) by (cases ?xs) auto
    have "element_at s' ?out ?ix = Inr (?v i)"
      using i by (simp add: element_at_def storage_get_def position_row_major_index cs)
    also have "?v i = foldl fn x rest"
      unfolding reduce_value_def xs left_fold_def by simp
    finally have e: "element_at s' ?out ?ix = Inr (foldl fn x rest)" .
    have t: "to_index i ?os = Inr ?ix" using i by (simp add: to_index_def)
    have m: "map (\<lambda>reduce_pos. cells s (storage a) !
                    index_to_position (?ix[d := reduce_pos]) (strides a))
                [0..<shape a ! d] = x # rest"
      using xs unfolding reduce_elems_def .
    show ?thesis
      by (rule exI[of _ ?ix], rule exI[of _ x], rule exI[of _ rest]) (intro conjI t m e)
  qed
  then show ?thesis using res by (intro exI[of _ ?out] exI[of _ s']) simp
qed

text \<open>
  The hypotheses of C10 hold for the 2 by 3 tensor of \<open>store1\<close> and dimension 1; the
  start values 0 and 100 give the same result.
\<close>

theorem SimpleOps_reduce_ignores_start_witness:
  "in_range [2, 3] [3, 1] (length (cells store1 0))
   \<and> py_index (length [2, 3 :: nat]) 1 = Inr 1
   \<and> (\<exists>out s'. SimpleOps_reduce 0 (-) 0 \<lparr>storage = 0, shape = [2, 3], strides = [3, 1]\<rparr> 1 store1
          = Inr (out, s')
        \<and> SimpleOps_reduce 0 (-) 100 \<lparr>storage = 0, shape = [2, 3], strides = [3, 1]\<rparr> 1 store1
          = Inr (out, s'))"
proof -
  let ?a = "\<lparr>storage = 0, shape = [2, 3], strides = [3, 1]\<rparr>"
  have h1: "in_range (shape ?a) (strides ?a) (length (cells store1 (storage ?a)))" by code_simp
  have h2: "storage ?a < next_ref store1" by (simp add: store1_def)
  have h3: "py_index (length (shape ?a)) 1 = Inr 1" by (simp add: py_index_def)
  have h4: "1 \<le> shape ?a ! 1" by simp
  obtain out s' where
    "SimpleOps_reduce 0 (-) 0 ?a 1 store1 = Inr (out, s')"
    "\<forall>start'. SimpleOps_reduce 0 (-) start' ?a 1 store1 = Inr (out, s')"
    using SimpleOps_reduce_ignores_start[OF h1 h2 h3 h4, of 0 "(-)" 0] by blast
  then show ?thesis using h1 h3 by auto
qed

section \<open>Mapping the identity\<close>

lemma broadcasts_to_refl: "broadcasts_to shp shp"
  by (simp add: broadcasts_to_def list_all2_same)

lemma broadcast_same:
  fixes ix shp :: "nat list"
  assumes "list_all2 (<) ix shp"
  shows "map2 (\<lambda>d b. if d = 1 then 0 else b) shp ix = ix"
proof (rule nth_equalityI)
  have len: "length ix = length shp" using assms by (rule list_all2_lengthD)
  then show "length (map2 (\<lambda>d b. if d = 1 then 0 else b) shp ix) = length ix" by simp
  fix j assume "j < length (map2 (\<lambda>d b. if d = 1 then 0 else b) shp ix)"
  then have j: "j < length ix" using len by simp
  then have "ix ! j < shp ! j" using list_all2_nthD[OF assms] by simp
  then have "(if shp ! j = 1 then 0 else ix ! j) = ix ! j" by (metis less_one)
  then show "map2 (\<lambda>d b. if d = 1 then 0 else b) shp ix ! j = ix ! j"
    using j len by simp
qed

lemma broadcast_position_same:
  "i < prod_list shp \<Longrightarrow>
   broadcast_position shp shp strds i = index_to_position (row_major_index i shp) strds"
  unfolding broadcast_position_def
  by (simp only: diff_self_eq_0 drop_0 broadcast_same[OF row_major_index_less])

lemma SimpleOps_map_result:
  assumes ra: "in_range (shape a) (strides a) (length (cells s (storage a)))"
    and al: "storage a < next_ref s"
  shows "SimpleOps_map fn a None s =
     Inr (\<lparr>storage = next_ref s, shape = shape a, strides = row_major_strides (shape a)\<rparr>,
          s\<lparr>cells := (cells s)(next_ref s :=
                map (mapped_value fn s a) [0..<prod_list (shape a)]),
            next_ref := Suc (next_ref s),
            writes := writes s @
                map (\<lambda>i. (next_ref s, i, mapped_value fn s a i)) [0..<prod_list (shape a)]\<rparr>)"
proof -
  let ?sh = "shape a"
  let ?n = "prod_list ?sh"
  let ?out = "next_ref s"
  let ?s1 = "s\<lparr>cells := (cells s)(?out := replicate ?n 0), next_ref := Suc ?out\<rparr>"
  let ?v = "\<lambda>i. fn (cells ?s1 (storage a) ! broadcast_position ?sh ?sh (strides a) i)"
  have ne: "storage a \<noteq> ?out" using al by simp
  have ca: "cells ?s1 (storage a) = cells s (storage a)" using ne by simp
  have "tensor_map fn ?out ?sh (row_major_strides ?sh) (storage a) ?sh (strides a) ?s1 =
     Inr (?s1\<lparr>cells := (cells ?s1)(?out :=
               fold (\<lambda>i c. c[ordinal_position ?sh (row_major_strides ?sh) i := ?v i])
                 [0..<?n] (cells ?s1 ?out)),
            writes := writes ?s1 @
               map (\<lambda>i. (?out, ordinal_position ?sh (row_major_strides ?sh) i, ?v i)) [0..<?n]\<rparr>)"
  proof (rule tensor_map_result)
    show "broadcasts_to ?sh ?sh" by (rule broadcasts_to_refl)
    show "in_range ?sh (row_major_strides ?sh) (length (cells ?s1 ?out))"
      by (simp add: in_range_row_major)
    show "in_range ?sh (strides a) (length (cells ?s1 (storage a)))" using ra ca by simp
    show "storage a \<noteq> ?out" by (rule ne)
  qed
  also have "?s1\<lparr>cells := (cells ?s1)(?out :=
               fold (\<lambda>i c. c[ordinal_position ?sh (row_major_strides ?sh) i := ?v i])
                 [0..<?n] (cells ?s1 ?out)),
            writes := writes ?s1 @
               map (\<lambda>i. (?out, ordinal_position ?sh (row_major_strides ?sh) i, ?v i)) [0..<?n]\<rparr>
      = s\<lparr>cells := (cells s)(?out := map (mapped_value fn s a) [0..<?n]),
            next_ref := Suc ?out,
            writes := writes s @ map (\<lambda>i. (?out, i, mapped_value fn s a i)) [0..<?n]\<rparr>"
  proof -
    have v: "\<And>i. i < ?n \<Longrightarrow> ?v i = mapped_value fn s a i"
      using ne by (simp add: broadcast_position_same mapped_value_def)
    have m1: "map ?v [0..<?n] = map (mapped_value fn s a) [0..<?n]"
      by (rule map_cong[OF refl], rule v) simp
    have m2: "map (\<lambda>i. (?out, i, ?v i)) [0..<?n] =
              map (\<lambda>i. (?out, i, mapped_value fn s a i)) [0..<?n]"
    proof (rule map_cong[OF refl])
      fix i assume "i \<in> set [0..<?n]"
      then have "i < ?n" by simp
      then show "(?out, i, ?v i) = (?out, i, mapped_value fn s a i)"
        by (simp only: v)
    qed
    have f: "fold (\<lambda>i c. c[ordinal_position ?sh (row_major_strides ?sh) i := ?v i])
                 [0..<?n] (cells ?s1 ?out) = map (mapped_value fn s a) [0..<?n]"
    proof -
      have "fold (\<lambda>i c. c[ordinal_position ?sh (row_major_strides ?sh) i := ?v i])
                 [0..<?n] (cells ?s1 ?out) = map ?v [0..<?n]"
        by (rule fold_update_row_major) simp
      then show ?thesis by (simp only: m1)
    qed
    have w: "map (\<lambda>i. (?out, ordinal_position ?sh (row_major_strides ?sh) i, ?v i)) [0..<?n]
          = map (\<lambda>i. (?out, i, mapped_value fn s a i)) [0..<?n]"
      by (subst map_row_major_writes) (rule m2)
    show ?thesis
      unfolding f w by (rule store.equality) (simp_all add: fun_eq_iff)
  qed
  finally have t: "tensor_map fn ?out ?sh (row_major_strides ?sh) (storage a) ?sh (strides a) ?s1 =
      Inr (s\<lparr>cells := (cells s)(?out := map (mapped_value fn s a) [0..<?n]),
            next_ref := Suc ?out,
            writes := writes s @ map (\<lambda>i. (?out, i, mapped_value fn s a i)) [0..<?n]\<rparr>)" .
  have z: "zeros s ?sh =
      (\<lparr>storage = ?out, shape = ?sh, strides = row_major_strides ?sh\<rparr>, ?s1)"
    by (simp add: zeros_def)
  show ?thesis
    apply (simp only: SimpleOps_map_def option.case z prod.case tensor.select_convs)
    apply (simp only: t sum.case)
    done
qed

lemma map_id_once:
  assumes ra: "in_range (shape a) (strides a) (length (cells s (storage a)))"
    and al: "storage a < next_ref s"
  shows "\<exists>out s'. SimpleOps_map operators_id a None s = Inr (out, s')
     \<and> shape out = shape a
     \<and> in_range (shape out) (strides out) (length (cells s' (storage out)))
     \<and> storage out < next_ref s'
     \<and> (\<forall>index. list_all2 (<) index (shape a) \<longrightarrow>
           (\<exists>x. element_at s a index = Inr x \<and> element_at s' out index = Inr x))"
proof -
  let ?sh = "shape a"
  let ?n = "prod_list ?sh"
  let ?out = "\<lparr>storage = next_ref s, shape = ?sh, strides = row_major_strides ?sh\<rparr>"
  define s' where "s' = s\<lparr>cells := (cells s)(next_ref s :=
                map (mapped_value operators_id s a) [0..<?n]),
            next_ref := Suc (next_ref s),
            writes := writes s @
                map (\<lambda>i. (next_ref s, i, mapped_value operators_id s a i)) [0..<?n]\<rparr>"
  have cs: "cells s' (next_ref s) = map (mapped_value operators_id s a) [0..<?n]"
    and nx: "next_ref s' = Suc (next_ref s)"
    by (simp_all add: s'_def)
  have res: "SimpleOps_map operators_id a None s = Inr (?out, s')"
    unfolding s'_def using ra al by (rule SimpleOps_map_result)
  have el: "\<exists>x. element_at s a index = Inr x \<and> element_at s' ?out index = Inr x"
    if v: "list_all2 (<) index ?sh" for index
  proof -
    let ?i = "index_to_position index (row_major_strides ?sh)"
    have i: "?i < ?n" using v by (rule position_less)
    have ix: "row_major_index ?i ?sh = index" using v by (rule row_major_index_position)
    have p: "index_to_position index (strides a) < length (cells s (storage a))"
      using ra v by (rule in_range_index)
    have 1: "element_at s a index = Inr (cells s (storage a) ! index_to_position index (strides a))"
      using p by (simp add: element_at_def storage_get_def)
    have 2: "element_at s' ?out index =
               Inr (cells s (storage a) ! index_to_position index (strides a))"
      using i by (simp add: element_at_def storage_get_def cs mapped_value_def ix
          operators_id_def)
    show ?thesis using 1 2 by simp
  qed
  have "in_range (shape ?out) (strides ?out) (length (cells s' (storage ?out)))"
    by (simp add: cs in_range_row_major)
  moreover have "storage ?out < next_ref s'" by (simp add: nx)
  ultimately show ?thesis using res el by (intro exI[of _ ?out] exI[of _ s']) simp
qed

text \<open>
  C6. For a tensor held by an allocated storage, \<^verbatim>\<open>id_map\<close> of the backend returns a
  tensor of the same shape that has, at every multi-dimensional index of that shape, the
  element the input has at that index; the two tensors are compared index by index, each
  read through its own strides. Applying \<^verbatim>\<open>id_map\<close> to the result gives again the same
  element at every index, so mapping the identity twice gives what mapping it once gives.
\<close>

theorem id_map_elementwise:
  assumes "in_range (shape a) (strides a) (length (cells s (storage a)))"
    and "storage a < next_ref s"
  shows "\<exists>out s'. id_map (SimpleBackend none_val) a None s = Inr (out, s')
     \<and> shape out = shape a
     \<and> (\<forall>index. list_all2 (<) index (shape a) \<longrightarrow>
           (\<exists>x. element_at s a index = Inr x \<and> element_at s' out index = Inr x))
     \<and> (\<exists>out2 s2. id_map (SimpleBackend none_val) out None s' = Inr (out2, s2)
           \<and> shape out2 = shape a
           \<and> (\<forall>index. list_all2 (<) index (shape a) \<longrightarrow>
                 (\<exists>x. element_at s' out index = Inr x \<and> element_at s2 out2 index = Inr x)))"
proof -
  have b: "id_map (SimpleBackend none_val) = SimpleOps_map operators_id"
    by (simp add: SimpleBackend_def TensorBackend_def SimpleOps_def)
  obtain out s' where 1: "SimpleOps_map operators_id a None s = Inr (out, s')"
    and sh: "shape out = shape a"
    and ra: "in_range (shape out) (strides out) (length (cells s' (storage out)))"
    and al: "storage out < next_ref s'"
    and el: "\<forall>index. list_all2 (<) index (shape a) \<longrightarrow>
           (\<exists>x. element_at s a index = Inr x \<and> element_at s' out index = Inr x)"
    using map_id_once[OF assms] by blast
  obtain out2 s2 where 2: "SimpleOps_map operators_id out None s' = Inr (out2, s2)"
    and sh2: "shape out2 = shape out"
    and el2: "\<forall>index. list_all2 (<) index (shape out) \<longrightarrow>
           (\<exists>x. element_at s' out index = Inr x \<and> element_at s2 out2 index = Inr x)"
    using map_id_once[OF ra al] by blast
  show ?thesis
    unfolding b using 1 sh el 2 sh2 el2 by (intro exI[of _ out] exI[of _ s']) auto
qed

text \<open>
  The hypotheses of C6 hold for the transposed view (shape \<open>(3, 2)\<close>, strides \<open>(1, 3)\<close>)
  of the storage of \<open>store1\<close>: the result is laid out differently and still has 20 at the
  index \<open>(2, 1)\<close>.
\<close>

theorem id_map_elementwise_witness:
  "in_range [3, 2] [1, 3] (length (cells store1 0))
   \<and> (\<exists>out s'. id_map (SimpleBackend 0) \<lparr>storage = 0, shape = [3, 2], strides = [1, 3]\<rparr>
                   None store1 = Inr (out, s')
         \<and> shape out = [3, 2]
         \<and> element_at store1 \<lparr>storage = 0, shape = [3, 2], strides = [1, 3]\<rparr> [2, 1] = Inr 20
         \<and> element_at s' out [2, 1] = Inr 20)"
proof -
  let ?a = "\<lparr>storage = 0, shape = [3, 2], strides = [1, 3]\<rparr>"
  have h1: "in_range (shape ?a) (strides ?a) (length (cells store1 (storage ?a)))" by code_simp
  have h2: "storage ?a < next_ref store1" by (simp add: store1_def)
  have v: "list_all2 (<) [2, 1] (shape ?a)" by simp
  have e: "element_at store1 ?a [2, 1] = Inr 20" by code_simp
  obtain out s' where r: "id_map (SimpleBackend 0) ?a None store1 = Inr (out, s')"
    and sh: "shape out = shape ?a"
    and el: "\<forall>index. list_all2 (<) index (shape ?a) \<longrightarrow>
           (\<exists>x. element_at store1 ?a index = Inr x \<and> element_at s' out index = Inr x)"
    using id_map_elementwise[OF h1 h2, of 0] by blast
  from el v obtain x where "element_at store1 ?a [2, 1] = Inr x" "element_at s' out [2, 1] = Inr x"
    by blast
  then have "element_at s' out [2, 1] = Inr 20" using e by simp
  then show ?thesis using h1 r sh e by auto
qed

section \<open>The sum of a row of ones\<close>

text \<open>
  For a row of \<open>N \<ge> 1\<close> ones the sum reduction of the backend returns a tensor of shape
  \<open>(1, 1)\<close> whose single stored value is \<open>N\<close>; shape \<open>(1, 4)\<close> with storage
  \<open>[1, 1, 1, 1]\<close> gives storage \<open>[4]\<close>. Numbers are elements of a ring here, which
  agrees with floating-point addition as long as the count is exactly representable.
\<close>

lemma foldl_add_ones:
  fixes x :: "'a::semiring_1"
  shows "foldl (+) x (map (\<lambda>_. 1) ks) = x + of_nat (length ks)"
  by (induction ks arbitrary: x) (simp_all add: add.assoc add.commute)

lemma add_reduce_row_of_ones:
  fixes s :: "'a::ring_1 store"
  assumes sh: "shape a = [1, N]" and n: "1 \<le> N"
    and ra: "in_range (shape a) (strides a) (length (cells s (storage a)))"
    and al: "storage a < next_ref s"
    and ones: "\<forall>x\<in>set (cells s (storage a)). x = 1"
  shows "\<exists>out s'. add_reduce (SimpleBackend none_val) a 1 s = Inr (out, s')
     \<and> shape out = [1, 1] \<and> cells s' (storage out) = [of_nat N]"
proof -
  have d: "py_index (length (shape a)) 1 = Inr 1" by (simp add: sh py_index_def)
  have os: "(shape a)[1 := 1] = [1, 1]" by (simp add: sh)
  have el: "cells s (storage a) ! index_to_position [0, k] (strides a) = 1"
    if "k < N" for k
  proof -
    have "list_all2 (<) [0, k] (shape a)" using that by (simp add: sh)
    then have "index_to_position [0, k] (strides a) < length (cells s (storage a))"
      using ra in_range_index by blast
    then show ?thesis using ones by simp
  qed
  have "reduce_elems (cells s (storage a)) (strides a) [0, 0] 1 N = map (\<lambda>_. 1) [0..<N]"
    unfolding reduce_elems_def by (rule map_cong[OF refl]) (simp add: el)
  also have "\<dots> = 1 # map (\<lambda>_. 1) [1..<N]" using n by (simp add: upt_rec)
  finally have "left_fold none_val operators_add
       (reduce_elems (cells s (storage a)) (strides a) [0, 0] 1 N) = of_nat N"
    using n foldl_add_ones[of "1::'a" "[1..<N]"]
    by (simp add: left_fold_def operators_add_def[abs_def])
  then have v: "reduce_value none_val operators_add s a (Suc 0) 0 = of_nat N"
    by (simp add: reduce_value_def sh)
  have b: "add_reduce (SimpleBackend none_val) = SimpleOps_reduce none_val operators_add 0"
    by (simp add: SimpleBackend_def TensorBackend_def SimpleOps_def)
  show ?thesis
    unfolding b SimpleOps_reduce_result[OF ra al d] os
    by (simp add: v)
qed

lemma add_reduce_four_ones:
  "\<exists>out s'. add_reduce (SimpleBackend none_val) \<lparr>storage = 0, shape = [1, 4], strides = [4, 1]\<rparr>
               1 store2 = Inr (out, s')
     \<and> shape out = [1, 1] \<and> cells s' (storage out) = [4]"
proof -
  let ?a = "\<lparr>storage = 0, shape = [1, 4], strides = [4, 1]\<rparr>"
  have h1: "in_range (shape ?a) (strides ?a) (length (cells store2 (storage ?a)))" by code_simp
  show ?thesis
    using add_reduce_row_of_ones[of ?a 4 store2 none_val, OF _ _ h1]
    by (simp add: store2_def)
qed

text \<open>
  C5. Reducing with addition and start 0.0 a tensor of shape \<open>(1, N)\<close> of ones along
  dimension 1 is to give shape \<open>(1, 1)\<close> and the single stored value \<open>N\<close>. For \<open>N = 0\<close>
  the tensor has shape \<open>(1, 0)\<close> and an empty storage, and the value is to be 0, the start
  value. The code returns shape \<open>(1, 1)\<close>, but the inner loop of \<^verbatim>\<open>_reduce\<close> does not
  run, \<open>res\<close> is still \<^verbatim>\<open>None\<close>, and the assignment \<^verbatim>\<open>out[out_storage_pos] = res\<close>
  overwrites the start value that \<^verbatim>\<open>SimpleOps.reduce\<close> had filled in: the stored value is
  \<open>none_val\<close>, what the storage holds for \<^verbatim>\<open>None\<close>, and not 0.
\<close>

theorem add_reduce_empty_row:
  "add_reduce (SimpleBackend none_val) \<lparr>storage = 0, shape = [1, 0], strides = [0, 1]\<rparr>
      1 store3 =
   Inr (\<lparr>storage = 1, shape = [1, 1], strides = [1, 1]\<rparr>,
        \<lparr>cells = (\<lambda>_. [])(1 := [none_val]), next_ref = 2, writes = [(1, 0, none_val)]\<rparr>)"
proof -
  let ?a = "\<lparr>storage = 0, shape = [1, 0], strides = [0, 1]\<rparr>"
  have h1: "in_range (shape ?a) (strides ?a) (length (cells store3 (storage ?a)))"
    by (simp add: in_range_def)
  have h2: "storage ?a < next_ref store3" by (simp add: store3_def)
  have d: "py_index (length (shape ?a)) 1 = Inr 1" by (simp add: py_index_def)
  have b: "add_reduce (SimpleBackend none_val) = SimpleOps_reduce none_val operators_add 0"
    by (simp add: SimpleBackend_def TensorBackend_def SimpleOps_def)
  have v: "\<And>st r m sd i. reduce_value none_val operators_add st
               \<lparr>storage = r, shape = [m, 0], strides = sd\<rparr> (Suc 0) i = none_val"
    by (simp add: reduce_value_def reduce_elems_def left_fold_def)
  show ?thesis
    unfolding b SimpleOps_reduce_result[OF h1 h2 d]
    by (simp add: v store3_def)
qed

section \<open>The unimplemented matrix multiplication\<close>

text \<open>
  C9. \<^verbatim>\<open>matrix_multiply\<close> raises \<^verbatim>\<open>NotImplementedError\<close> for every pair of tensors and in
  every store, and returns nothing: as the method of \<^verbatim>\<open>SimpleOps\<close>, as the method of the
  base class \<^verbatim>\<open>TensorOps\<close>, and as the entry of the backend bound to \<^verbatim>\<open>SimpleOps\<close>.
\<close>

theorem matrix_multiply_not_implemented:
  "SimpleOps_matrix_multiply a b s = Inl NotImplementedError
   \<and> TensorOps_matrix_multiply a b s = Inl NotImplementedError
   \<and> matrix_multiply (SimpleBackend none_val) a b s = Inl NotImplementedError"
  by (simp add: SimpleOps_matrix_multiply_def TensorOps_matrix_multiply_def
      SimpleBackend_def TensorBackend_def SimpleOps_def)

end
